theory Spec2Isabelle
  imports Main "HOL-Library.AList"
begin

section \<open>The template document\<close>

text \<open>
  The renderer of \<^verbatim>\<open>readme_gen.py\<close> works on the element tree that lxml parses from an
  SVG file. An element has a tag, its attributes in document order, an optional text, its
  child elements and an optional tail. Attribute names are unique in XML, so the
  attributes are an association list read with \<open>map_of\<close> and written with
  \<open>AList.update\<close> (an existing name keeps its place, a new one goes to the end, as
  \<^verbatim>\<open>el.set\<close> does).
\<close>

datatype element =
  Element (el_tag: string) (el_attrib: "(string \<times> string) list")
    (el_text: "string option") (el_children: "element list") (el_tail: "string option")

text \<open>
  A reference to an element of the tree is the list of child positions that leads to it
  from the root; the root itself is the empty path and the parent of a path is the path
  without its last step.
\<close>

type_synonym path = "nat list"

fun get_at :: "element \<Rightarrow> path \<Rightarrow> element option" where
  "get_at e [] = Some e"
| "get_at e (k # p) =
     (if k < length (el_children e) then get_at (el_children e ! k) p else None)"

fun update_at :: "(element \<Rightarrow> element) \<Rightarrow> path \<Rightarrow> element \<Rightarrow> element" where
  "update_at f [] e = f e"
| "update_at f (k # p) e =
     (if k < length (el_children e)
      then Element (el_tag e) (el_attrib e) (el_text e)
             ((el_children e)[k := update_at f p (el_children e ! k)]) (el_tail e)
      else e)"

definition el_get :: "element \<Rightarrow> string \<Rightarrow> string option" where
  "el_get e k = map_of (el_attrib e) k"

definition el_set :: "string \<Rightarrow> string \<Rightarrow> element \<Rightarrow> element" where
  "el_set k v e =
     Element (el_tag e) (AList.update k v (el_attrib e)) (el_text e) (el_children e) (el_tail e)"

definition set_text :: "string \<Rightarrow> element \<Rightarrow> element" where
  "set_text s e = Element (el_tag e) (el_attrib e) (Some s) (el_children e) (el_tail e)"

text \<open>
  \<^verbatim>\<open>root.find(".//*[@id='...']")\<close>: the first element in document order, among the
  descendants of the root (the root itself is not a candidate of \<^verbatim>\<open>.//*\<close>), whose
  \<^verbatim>\<open>id\<close> attribute equals the identifier. \<open>find_forest\<close> walks a list of siblings:
  an element comes before its own descendants, and these before its next sibling.
  The path expression is built by putting the identifier between apostrophes; the
  embedding reads it as the attribute test it denotes for an identifier without an
  apostrophe, which is the case of every identifier the program passes.
\<close>

fun find_forest :: "string \<Rightarrow> element list \<Rightarrow> path option" where
  "find_forest i [] = None"
| "find_forest i (Element t a x cs ta # es) =
     (if map_of a ''id'' = Some i then Some [0]
      else (case find_forest i cs of
              Some p \<Rightarrow> Some (0 # p)
            | None \<Rightarrow>
               (case find_forest i es of
                  Some (k # p) \<Rightarrow> Some (Suc k # p)
                | _ \<Rightarrow> None)))"

definition find_by_id :: "element \<Rightarrow> string \<Rightarrow> path option" where
  "find_by_id root i = find_forest i (el_children root)"

section \<open>Python values and their string forms\<close>

text \<open>
  The values that reach the renderer are the age string, integer counts, the values read
  from the JSON body of a response, and one tuple built by the main program. Integers
  are unbounded. Floating point numbers are left out: no field the queries read is one.
  A string is a list of characters and \<^verbatim>\<open>len\<close> is the length of that list.
\<close>

datatype pyval =
    PyNone
  | PyBool bool
  | PyInt int
  | PyStr string
  | PyList "pyval list"
  | PyTuple "pyval list"
  | PyDict "(string \<times> pyval) list"

datatype py_error =
    RuntimeError string
  | KeyError string
  | TypeError
  | ValueError
  | IndexError
  | AttributeError
  | ConnectionError
  | OSError
  | XMLSyntaxError

definition digit_char :: "nat \<Rightarrow> char" where
  "digit_char d = ''0123456789abcdef'' ! d"

fun digits10 :: "nat \<Rightarrow> string" where
  "digits10 n = (if n < 10 then [digit_char n] else digits10 (n div 10) @ [digit_char (n mod 10)])"

declare digits10.simps [simp del]

definition str_int :: "int \<Rightarrow> string" where
  "str_int n = (if n < 0 then CHR ''-'' # digits10 (nat (- n)) else digits10 (nat n))"

text \<open>
  \<^verbatim>\<open>f"{n:,}"\<close>: the decimal digits in groups of three counted from the right, a comma
  between two groups, the sign in front.
\<close>

fun group3 :: "string \<Rightarrow> string" where
  "group3 ds =
     (if length ds \<le> 3 then ds
      else group3 (take (length ds - 3) ds) @ CHR '','' # drop (length ds - 3) ds)"

declare group3.simps [simp del]

definition format_comma :: "int \<Rightarrow> string" where
  "format_comma n =
     (if n < 0 then CHR ''-'' # group3 (digits10 (nat (- n))) else group3 (digits10 (nat n)))"

text \<open>
  \<^verbatim>\<open>repr\<close> of a string: apostrophes around it, or double quotes when it holds an
  apostrophe and no double quote; the quote in use and the backslash are escaped, tab,
  newline and carriage return have their letters, and the other characters that are not
  printable are written \<^verbatim>\<open>\xhh\<close>.
\<close>

definition repr_char :: "char \<Rightarrow> char \<Rightarrow> string" where
  "repr_char q c =
     (let n = (of_char c :: nat) in
      if c = q \<or> c = CHR 0x5C then [CHR 0x5C, c]
      else if c = CHR 0x09 then [CHR 0x5C, CHR ''t'']
      else if c = CHR 0x0A then [CHR 0x5C, CHR ''n'']
      else if c = CHR 0x0D then [CHR 0x5C, CHR ''r'']
      else if n < 32 \<or> n = 127 \<or> (128 \<le> n \<and> n \<le> 160) \<or> n = 173
        then [CHR 0x5C, CHR ''x'', digit_char (n div 16), digit_char (n mod 16)]
      else [c])"

definition repr_str :: "string \<Rightarrow> string" where
  "repr_str s =
     (let q = (if CHR 0x27 \<in> set s \<and> CHR 0x22 \<notin> set s then CHR 0x22 else CHR 0x27)
      in q # concat (map (repr_char q) s) @ [q])"

fun join :: "string \<Rightarrow> string list \<Rightarrow> string" where
  "join sep [] = []"
| "join sep [x] = x"
| "join sep (x # y # ys) = x @ sep @ join sep (y # ys)"

fun py_repr :: "pyval \<Rightarrow> string" where
  "py_repr PyNone = ''None''"
| "py_repr (PyBool b) = (if b then ''True'' else ''False'')"
| "py_repr (PyInt n) = str_int n"
| "py_repr (PyStr s) = repr_str s"
| "py_repr (PyList xs) = ''['' @ join '', '' (map py_repr xs) @ '']''"
| "py_repr (PyTuple xs) =
     (if length xs = 1 then ''('' @ join '', '' (map py_repr xs) @ '',)''
      else ''('' @ join '', '' (map py_repr xs) @ '')'')"
| "py_repr (PyDict kvs) =
     ''{'' @ join '', '' (map (\<lambda>kv. repr_str (fst kv) @ '': '' @ py_repr (snd kv)) kvs) @ ''}''"

definition py_str :: "pyval \<Rightarrow> string" where
  "py_str v = (case v of PyStr s \<Rightarrow> s | _ \<Rightarrow> py_repr v)"

section \<open>The renderer\<close>

text \<open>
  \<^verbatim>\<open>find_and_replace\<close>: no element found is a plain return. Otherwise the text is set,
  the \<^verbatim>\<open>x\<close> attribute of the parent is read, and it is copied when Python takes it for true:
  present and not the empty string. \<^verbatim>\<open>getparent()\<close> of an element without a parent is
  \<^verbatim>\<open>None\<close>, and calling \<^verbatim>\<open>get\<close> on it is an AttributeError.
\<close>

definition getparent :: "element \<Rightarrow> path \<Rightarrow> element option" where
  "getparent root p = (if p = [] then None else get_at root (butlast p))"

definition find_and_replace :: "element \<Rightarrow> string \<Rightarrow> pyval \<Rightarrow> py_error + element" where
  "find_and_replace root element_id new_text =
     (case find_by_id root element_id of
        None \<Rightarrow> Inr root
      | Some el \<Rightarrow>
          (let root1 = update_at (set_text (py_str new_text)) el root in
           case getparent root1 el of
             None \<Rightarrow> Inl AttributeError
           | Some parent \<Rightarrow>
               (case el_get parent ''x'' of
                  None \<Rightarrow> Inr root1
                | Some parent_x \<Rightarrow>
                    if parent_x \<noteq> [] then Inr (update_at (el_set ''x'' parent_x) el root1)
                    else Inr root1)))"

text \<open>
  \<^verbatim>\<open>justify_format\<close>: an \<^verbatim>\<open>int\<close> (a \<^verbatim>\<open>bool\<close> is one in Python) is replaced by its
  text with thousands separators before anything else, so the padding is counted on
  that text (\<open>format_value\<close> is that first line). \<open>dot_map_get\<close> is the lookup \<^verbatim>\<open>dot_map.get(just_len, ' '+'.'*just_len+' ')\<close>.
\<close>

definition isinstance_int :: "pyval \<Rightarrow> int option" where
  "isinstance_int v =
     (case v of PyInt n \<Rightarrow> Some n | PyBool b \<Rightarrow> Some (if b then 1 else 0) | _ \<Rightarrow> None)"

definition dot_map_get :: "int \<Rightarrow> string" where
  "dot_map_get just_len =
     (if just_len = 0 then []
      else if just_len = 1 then '' ''
      else if just_len = 2 then ''. ''
      else '' '' @ replicate (nat just_len) CHR ''.'' @ '' '')"

definition format_value :: "pyval \<Rightarrow> pyval" where
  "format_value new_text =
     (case isinstance_int new_text of
        Some n \<Rightarrow> PyStr (format_comma n)
      | None \<Rightarrow> new_text)"

definition justify_format :: "element \<Rightarrow> string \<Rightarrow> pyval \<Rightarrow> int \<Rightarrow> py_error + element" where
  "justify_format root eid new_text len =
     (let new_text1 = format_value new_text
      in case find_and_replace root eid new_text1 of
           Inl err \<Rightarrow> Inl err
         | Inr root1 \<Rightarrow>
             (let just_len = max 0 (len - int (length (py_str new_text1)));
                  dot_string = dot_map_get just_len
              in find_and_replace root1 (eid @ ''_dots'') (PyStr dot_string)))"

text \<open>
  \<^verbatim>\<open>svg_overwrite\<close> makes nine substitutions on the parsed tree, each with its own
  width. \<open>py_index\<close> is \<^verbatim>\<open>loc[k]\<close> for the literal positions 0, 1 and 2: out of range
  is an IndexError, a dictionary has no such key, and a value that is not a sequence
  cannot be indexed. \<open>svg_render\<close> is the body of the function between
  \<^verbatim>\<open>etree.parse\<close> and \<^verbatim>\<open>tree.write\<close>.
\<close>

definition py_index :: "pyval \<Rightarrow> nat \<Rightarrow> py_error + pyval" where
  "py_index v k =
     (case v of
        PyList xs \<Rightarrow> if k < length xs then Inr (xs ! k) else Inl IndexError
      | PyTuple xs \<Rightarrow> if k < length xs then Inr (xs ! k) else Inl IndexError
      | PyStr s \<Rightarrow> if k < length s then Inr (PyStr [s ! k]) else Inl IndexError
      | PyDict kvs \<Rightarrow> Inl (KeyError (digits10 k))
      | _ \<Rightarrow> Inl TypeError)"

definition and_then :: "'e + 'a \<Rightarrow> ('a \<Rightarrow> 'e + 'b) \<Rightarrow> 'e + 'b" where
  "and_then m f = (case m of Inl err \<Rightarrow> Inl err | Inr x \<Rightarrow> f x)"

definition svg_render ::
  "element \<Rightarrow> pyval \<Rightarrow> pyval \<Rightarrow> pyval \<Rightarrow> pyval \<Rightarrow> pyval \<Rightarrow> pyval \<Rightarrow> pyval \<Rightarrow> py_error + element"
where
  "svg_render root age comm star repo contrib follow loc =
     and_then (justify_format root ''age_data'' age 0) (\<lambda>r1.
     and_then (justify_format r1 ''commit_data'' comm 22) (\<lambda>r2.
     and_then (justify_format r2 ''star_data'' star 14) (\<lambda>r3.
     and_then (justify_format r3 ''repo_data'' repo 6) (\<lambda>r4.
     and_then (justify_format r4 ''contrib_data'' contrib 0) (\<lambda>r5.
     and_then (justify_format r5 ''follower_data'' follow 10) (\<lambda>r6.
     and_then (py_index loc 2) (\<lambda>loc2.
     and_then (justify_format r6 ''loc_data'' loc2 9) (\<lambda>r7.
     and_then (py_index loc 0) (\<lambda>loc0.
     and_then (justify_format r7 ''loc_add'' loc0 0) (\<lambda>r8.
     and_then (py_index loc 1) (\<lambda>loc1.
     justify_format r8 ''loc_del'' loc1 7)))))))))))"

section \<open>The world of the script: the API, the counters and the files\<close>

text \<open>
  A request is the JSON payload and the headers posted to the fixed endpoint; a response
  has a status code, its text, and its body parsed as JSON when it is JSON. The server is
  a parameter: what it answers to the n-th request of the run. The world also holds the
  requests sent so far, the \<^verbatim>\<open>QUERY_COUNT\<close> table and the files. A step of the script
  takes a world and gives the value or the exception it ends with, and the world it
  leaves behind.
\<close>

record request =
  query :: string
  variables :: "(string \<times> pyval) list"
  headers :: "(string \<times> string) list"

record response =
  status_code :: int
  body_text :: string
  body_json :: "pyval option"

datatype file_content = Xml element | NotXml

record world =
  api :: "nat \<Rightarrow> request \<Rightarrow> py_error + response"
  sent :: "request list"
  QUERY_COUNT :: "(string \<times> nat) list"
  files :: "string \<Rightarrow> file_content option"

record globals =
  USER_NAME :: string
  HEADERS :: "(string \<times> string) list"

type_synonym 'a prog = "world \<Rightarrow> (py_error + 'a) \<times> world"

definition ret :: "'a \<Rightarrow> 'a prog" where
  "ret x w = (Inr x, w)"

definition lift :: "py_error + 'a \<Rightarrow> 'a prog" where
  "lift m w = (m, w)"

definition seq :: "'a prog \<Rightarrow> ('a \<Rightarrow> 'b prog) \<Rightarrow> 'b prog" where
  "seq m f w = (case m w of (Inl err, w1) \<Rightarrow> (Inl err, w1) | (Inr x, w1) \<Rightarrow> f x w1)"

definition initial_counts :: "(string \<times> nat) list" where
  "initial_counts =
     [(''user_getter'', 0), (''follower_getter'', 0), (''graph_repos_stars'', 0),
      (''recursive_loc'', 0), (''graph_commits'', 0), (''loc_query'', 0)]"

definition query_count :: "string \<Rightarrow> unit prog" where
  "query_count k w =
     (case map_of (QUERY_COUNT w) k of
        None \<Rightarrow> (Inl (KeyError k), w)
      | Some n \<Rightarrow> (Inr (), w\<lparr>QUERY_COUNT := AList.update k (n + 1) (QUERY_COUNT w)\<rparr>))"

text \<open>
  \<^verbatim>\<open>simple_request\<close>: one post; the response itself on status 200, otherwise a
  RuntimeError whose message is \<^verbatim>\<open>f"{fname} failed -> {r.status_code}: {r.text}"\<close>.
  The arrow of the source is one character outside ASCII, written here as the three
  bytes of its UTF-8 form.
\<close>

definition arrow :: string where
  "arrow = [CHR 0xE2, CHR 0x86, CHR 0x92]"

definition failure_message :: "string \<Rightarrow> response \<Rightarrow> string" where
  "failure_message fname r =
     fname @ '' failed '' @ arrow @ '' '' @ str_int (status_code r) @ '': '' @ body_text r"

definition simple_request ::
  "globals \<Rightarrow> string \<Rightarrow> string \<Rightarrow> (string \<times> pyval) list \<Rightarrow> response prog" where
  "simple_request g fname q v w =
     (let req = \<lparr>query = q, variables = v, headers = HEADERS g\<rparr>;
          w1 = w\<lparr>sent := sent w @ [req]\<rparr>
      in case api w (length (sent w)) req of
           Inl err \<Rightarrow> (Inl err, w1)
         | Inr r \<Rightarrow>
             if status_code r = 200 then (Inr r, w1)
             else (Inl (RuntimeError (failure_message fname r)), w1))"

text \<open>
  Reading the body: \<^verbatim>\<open>r.json()\<close> fails on a body that is not JSON; \<^verbatim>\<open>x['key']\<close> is a
  KeyError on a dictionary without the key and a TypeError on anything that is not a
  dictionary.
\<close>

definition json :: "response \<Rightarrow> py_error + pyval" where
  "json r = (case body_json r of None \<Rightarrow> Inl ValueError | Some j \<Rightarrow> Inr j)"

definition py_getitem :: "pyval \<Rightarrow> string \<Rightarrow> py_error + pyval" where
  "py_getitem v k =
     (case v of
        PyDict kvs \<Rightarrow> (case map_of kvs k of None \<Rightarrow> Inl (KeyError k) | Some x \<Rightarrow> Inr x)
      | _ \<Rightarrow> Inl TypeError)"

fun key_path :: "pyval \<Rightarrow> string list \<Rightarrow> py_error + pyval" where
  "key_path v [] = Inr v"
| "key_path v (k # ks) = and_then (py_getitem v k) (\<lambda>x. key_path x ks)"

text \<open>
  \<^verbatim>\<open>int(x)\<close>: an integer is itself, a truth value is 0 or 1, a string is read as a
  decimal literal (white space around it, a sign, digits with single underscores
  between them), and the other values are a TypeError.
\<close>

definition is_space :: "char \<Rightarrow> bool" where
  "is_space c =
     (let n = (of_char c :: nat) in
      (9 \<le> n \<and> n \<le> 13) \<or> (28 \<le> n \<and> n \<le> 32) \<or> n = 133 \<or> n = 160)"

definition is_digit :: "char \<Rightarrow> bool" where
  "is_digit c = (let n = (of_char c :: nat) in 48 \<le> n \<and> n \<le> 57)"

fun digits_value :: "int \<Rightarrow> string \<Rightarrow> int option" where
  "digits_value acc [] = Some acc"
| "digits_value acc [c] =
     (if is_digit c then Some (acc * 10 + (of_char c - 48)) else None)"
| "digits_value acc (c # d # ds) =
     (if is_digit c then
        (if d = CHR ''_'' then
           (case ds of [] \<Rightarrow> None
            | e # es \<Rightarrow> if is_digit e then digits_value (acc * 10 + (of_char c - 48)) ds
                       else None)
         else digits_value (acc * 10 + (of_char c - 48)) (d # ds))
      else None)"

definition int_of_str :: "string \<Rightarrow> int option" where
  "int_of_str s =
     (let t = rev (dropWhile is_space (rev (dropWhile is_space s))) in
      case t of
        [] \<Rightarrow> None
      | c # cs \<Rightarrow>
          if c = CHR ''-'' then (if cs = [] then None else map_option uminus (digits_value 0 cs))
          else if c = CHR ''+'' then (if cs = [] then None else digits_value 0 cs)
          else digits_value 0 t)"

definition py_int :: "pyval \<Rightarrow> py_error + int" where
  "py_int v =
     (case v of
        PyInt n \<Rightarrow> Inr n
      | PyBool b \<Rightarrow> Inr (if b then 1 else 0)
      | PyStr s \<Rightarrow> (case int_of_str s of None \<Rightarrow> Inl ValueError | Some n \<Rightarrow> Inr n)
      | _ \<Rightarrow> Inl TypeError)"

text \<open>
  Iterating a value and \<^verbatim>\<open>sum\<close>: a list gives its items, a dictionary its keys, a
  string its characters; \<^verbatim>\<open>sum\<close> starts at 0 and adds the items one at a time, and an
  item that is not a number is a TypeError.
\<close>

definition py_iter :: "pyval \<Rightarrow> py_error + pyval list" where
  "py_iter v =
     (case v of
        PyList xs \<Rightarrow> Inr xs
      | PyTuple xs \<Rightarrow> Inr xs
      | PyDict kvs \<Rightarrow> Inr (map (\<lambda>kv. PyStr (fst kv)) kvs)
      | PyStr s \<Rightarrow> Inr (map (\<lambda>c. PyStr [c]) s)
      | _ \<Rightarrow> Inl TypeError)"

definition py_add :: "int \<Rightarrow> pyval \<Rightarrow> py_error + int" where
  "py_add acc v =
     (case v of
        PyInt n \<Rightarrow> Inr (acc + n)
      | PyBool b \<Rightarrow> Inr (acc + (if b then 1 else 0))
      | _ \<Rightarrow> Inl TypeError)"

fun sum_stars :: "int \<Rightarrow> pyval list \<Rightarrow> py_error + int" where
  "sum_stars acc [] = Inr acc"
| "sum_stars acc (e # es) =
     and_then (key_path e [''node'', ''stargazers'', ''totalCount'']) (\<lambda>c.
     and_then (py_add acc c) (\<lambda>acc1. sum_stars acc1 es))"

subsection \<open>The three fetch calls\<close>

definition user_query :: string where
  "user_query = ''query($login:String!){ user(login:$login){ id createdAt }}''"

definition follower_query :: string where
  "follower_query = ''query($login:String!){ user(login:$login){ followers{ totalCount }}}''"

definition repos_query :: string where
  "repos_query =
     ''query($owner_affiliation:[RepositoryAffiliation],$login:String!,$cursor:String){''
     @ [CHR 0x0A] @
     ''      user(login:$login){ repositories(first:100,after:$cursor,ownerAffiliations:$owner_affiliation){ totalCount edges{node{stargazers{totalCount}}} pageInfo{endCursor hasNextPage}}}}''"

definition user_getter :: "globals \<Rightarrow> string \<Rightarrow> (pyval \<times> pyval) prog" where
  "user_getter g username =
     seq (query_count ''user_getter'') (\<lambda>_.
     seq (simple_request g ''user_getter'' user_query [(''login'', PyStr username)]) (\<lambda>r.
     lift (and_then (json r) (\<lambda>j.
           and_then (key_path j [''data'', ''user'']) (\<lambda>data.
           and_then (py_getitem data ''id'') (\<lambda>uid.
           and_then (py_getitem data ''createdAt'') (\<lambda>created.
           Inr (PyDict [(''id'', uid)], created))))))))"

definition follower_getter :: "globals \<Rightarrow> string \<Rightarrow> int prog" where
  "follower_getter g username =
     seq (query_count ''follower_getter'') (\<lambda>_.
     seq (simple_request g ''follower_getter'' follower_query [(''login'', PyStr username)]) (\<lambda>r.
     lift (and_then (json r) (\<lambda>j.
           and_then (key_path j [''data'', ''user'', ''followers'', ''totalCount'']) py_int))))"

definition graph_repos_stars :: "globals \<Rightarrow> string \<Rightarrow> string list \<Rightarrow> pyval \<Rightarrow> pyval prog" where
  "graph_repos_stars g kind aff cursor =
     seq (query_count ''graph_repos_stars'') (\<lambda>_.
     seq (simple_request g ''graph_repos_stars'' repos_query
            [(''owner_affiliation'', PyList (map PyStr aff)),
             (''login'', PyStr (USER_NAME g)),
             (''cursor'', cursor)]) (\<lambda>resp.
     lift (and_then (json resp) (\<lambda>j.
           and_then (key_path j [''data'', ''user'', ''repositories'']) (\<lambda>r.
           if kind = ''repos'' then py_getitem r ''totalCount''
           else and_then (py_getitem r ''edges'') (\<lambda>edges.
                and_then (py_iter edges) (\<lambda>es.
                and_then (sum_stars 0 es) (\<lambda>total. Inr (PyInt total)))))))))"

definition svg_overwrite ::
  "string \<Rightarrow> pyval \<Rightarrow> pyval \<Rightarrow> pyval \<Rightarrow> pyval \<Rightarrow> pyval \<Rightarrow> pyval \<Rightarrow> pyval \<Rightarrow> unit prog"
where
  "svg_overwrite fname age comm star repo contrib follow loc w =
     (case files w fname of
        None \<Rightarrow> (Inl OSError, w)
      | Some NotXml \<Rightarrow> (Inl XMLSyntaxError, w)
      | Some (Xml root) \<Rightarrow>
          (case svg_render root age comm star repo contrib follow loc of
             Inl err \<Rightarrow> (Inl err, w)
           | Inr root1 \<Rightarrow> (Inr (), w\<lparr>files := (files w)(fname \<mapsto> Xml root1)\<rparr>)))"

section \<open>The age string\<close>

text \<open>
  \<^verbatim>\<open>uptime_string\<close> formats the \<^verbatim>\<open>relativedelta\<close> between the current time and the
  birthday. The difference of two datetimes is computed as dateutil does: the months
  between the two (year, month) pairs, moved by one month at a time while adding them to
  the earlier date overshoots the later one, then the rest as a time span, carried into
  minutes, hours and days. A date plus years and months keeps the day of the month, cut
  to the length of the month it lands in. The current time is a parameter.
\<close>

record datetime =
  year :: int
  month :: int
  day :: int
  hour :: int
  minute :: int
  second :: int
  microsecond :: int

record relativedelta =
  years :: int
  months :: int
  days :: int
  hours :: int
  minutes :: int
  seconds :: int
  microseconds :: int

definition isleap :: "int \<Rightarrow> bool" where
  "isleap y = (y mod 4 = 0 \<and> (y mod 100 \<noteq> 0 \<or> y mod 400 = 0))"

definition days_in_month :: "int \<Rightarrow> int \<Rightarrow> int" where
  "days_in_month y m =
     (if m = 2 then (if isleap y then 29 else 28)
      else if m = 4 \<or> m = 6 \<or> m = 9 \<or> m = 11 then 30 else 31)"


definition dt_less :: "datetime \<Rightarrow> datetime \<Rightarrow> bool" where
  "dt_less a b =
     (year a < year b \<or> (year a = year b \<and>
     (month a < month b \<or> (month a = month b \<and>
     (day a < day b \<or> (day a = day b \<and>
     (hour a < hour b \<or> (hour a = hour b \<and>
     (minute a < minute b \<or> (minute a = minute b \<and>
     (second a < second b \<or> (second a = second b \<and>
      microsecond a < microsecond b))))))))))))"

definition toordinal :: "datetime \<Rightarrow> int" where
  "toordinal d =
     (let y = year d - 1 in
      y * 365 + y div 4 - y div 100 + y div 400
      + sum_list (map (days_in_month (year d)) [1..month d - 1]) + day d)"

definition dt_micros :: "datetime \<Rightarrow> int" where
  "dt_micros d =
     (((toordinal d * 24 + hour d) * 60 + minute d) * 60 + second d) * 1000000 + microsecond d"

definition py_sign :: "int \<Rightarrow> int" where
  "py_sign x = (if x < 0 then - 1 else 1)"

definition carry :: "int \<Rightarrow> int \<Rightarrow> int \<times> int" where
  "carry v lim =
     (if \<bar>v\<bar> > lim - 1
      then (let s = py_sign v in (((v * s) mod lim) * s, ((v * s) div lim) * s))
      else (v, 0))"

definition set_months :: "int \<Rightarrow> int \<times> int" where
  "set_months ms = (let (m, y) = carry ms 12 in (y, m))"

definition rd_add :: "datetime \<Rightarrow> int \<times> int \<Rightarrow> datetime" where
  "rd_add dt ym =
     (let year0 = year dt + fst ym;
          m = month dt + snd ym;
          year1 = (if snd ym \<noteq> 0 then (if m > 12 then year0 + 1 else if m < 1 then year0 - 1 else year0)
                   else year0);
          month1 = (if snd ym \<noteq> 0 then (if m > 12 then m - 12 else if m < 1 then m + 12 else m)
                    else month dt);
          day1 = min (days_in_month year1 month1) (day dt)
      in dt\<lparr>year := year1, month := month1, day := day1\<rparr>)"

lemma rd_add_year_lower: "year dt + fst ym - 1 \<le> year (rd_add dt ym)"
  by (simp add: rd_add_def Let_def)

lemma rd_add_year_upper: "year (rd_add dt ym) \<le> year dt + fst ym + 1"
  by (simp add: rd_add_def Let_def)

lemma set_months_years_lower: "12 * fst (set_months ms) \<le> ms + 11"
  by (auto simp: set_months_def carry_def py_sign_def Let_def)

lemma set_months_years_upper: "ms - 11 \<le> 12 * fst (set_months ms)"
  by (auto simp: set_months_def carry_def py_sign_def Let_def)

function adjust_months :: "bool \<Rightarrow> datetime \<Rightarrow> datetime \<Rightarrow> int \<Rightarrow> int" where
  "adjust_months past dt1 dt2 ms =
     (let dtm = rd_add dt2 (set_months ms) in
      if past then (if dt_less dtm dt1 then adjust_months past dt1 dt2 (ms + 1) else ms)
      else (if dt_less dt1 dtm then adjust_months past dt1 dt2 (ms - 1) else ms))"
  by pat_completeness auto
termination
proof (relation "measure (\<lambda>(past, dt1, dt2, ms).
          if past then nat (12 * (year dt1 - year dt2 + 3) - ms)
          else nat (ms - 12 * (year dt1 - year dt2 - 3)))")
  show "wf (measure (\<lambda>(past, dt1, dt2, ms).
          if past then nat (12 * (year dt1 - year dt2 + 3) - ms)
          else nat (ms - 12 * (year dt1 - year dt2 - 3))))"
    by simp
next
  fix past :: bool and dt1 dt2 :: datetime and ms :: int and dtm :: datetime
  assume dtm: "dtm = rd_add dt2 (set_months ms)" and past and less: "dt_less dtm dt1"
  from less have "year (rd_add dt2 (set_months ms)) \<le> year dt1"
    unfolding dtm by (auto simp: dt_less_def)
  with rd_add_year_lower[of dt2 "set_months ms"] set_months_years_upper[of ms]
  have "ms < 12 * (year dt1 - year dt2 + 3)" by simp
  with \<open>past\<close> show "((past, dt1, dt2, ms + 1), (past, dt1, dt2, ms)) \<in>
      measure (\<lambda>(past, dt1, dt2, ms).
          if past then nat (12 * (year dt1 - year dt2 + 3) - ms)
          else nat (ms - 12 * (year dt1 - year dt2 - 3)))"
    by simp
next
  fix past :: bool and dt1 dt2 :: datetime and ms :: int and dtm :: datetime
  assume dtm: "dtm = rd_add dt2 (set_months ms)" and "\<not> past" and less: "dt_less dt1 dtm"
  from less have "year dt1 \<le> year (rd_add dt2 (set_months ms))"
    unfolding dtm by (auto simp: dt_less_def)
  with rd_add_year_upper[of dt2 "set_months ms"] set_months_years_lower[of ms]
  have "12 * (year dt1 - year dt2 - 3) < ms" by simp
  with \<open>\<not> past\<close> show "((past, dt1, dt2, ms - 1), (past, dt1, dt2, ms)) \<in>
      measure (\<lambda>(past, dt1, dt2, ms).
          if past then nat (12 * (year dt1 - year dt2 + 3) - ms)
          else nat (ms - 12 * (year dt1 - year dt2 - 3)))"
    by simp
qed

declare adjust_months.simps [simp del]

definition rd_fix :: "relativedelta \<Rightarrow> relativedelta" where
  "rd_fix rd =
     (let (us, c1) = carry (microseconds rd) 1000000;
          (s, c2) = carry (seconds rd + c1) 60;
          (mi, c3) = carry (minutes rd + c2) 60;
          (h, c4) = carry (hours rd + c3) 24;
          (mo, c5) = carry (months rd) 12
      in \<lparr>years = years rd + c5, months = mo, days = days rd + c4, hours = h, minutes = mi,
          seconds = s, microseconds = us\<rparr>)"

definition relativedelta_between :: "datetime \<Rightarrow> datetime \<Rightarrow> relativedelta" where
  "relativedelta_between dt1 dt2 =
     (let ms0 = (year dt1 - year dt2) * 12 + (month dt1 - month dt2);
          ms = adjust_months (dt_less dt1 dt2) dt1 dt2 ms0;
          dtm = rd_add dt2 (set_months ms);
          delta = dt_micros dt1 - dt_micros dtm
      in rd_fix \<lparr>years = fst (set_months ms), months = snd (set_months ms), days = 0, hours = 0,
              minutes = 0, seconds = delta div 1000000, microseconds = delta mod 1000000\<rparr>)"

definition plural :: "int \<Rightarrow> string" where
  "plural n = replicate (if n \<noteq> 1 then 1 else 0) CHR ''s''"

definition uptime_string :: "datetime \<Rightarrow> datetime \<Rightarrow> string" where
  "uptime_string now bday =
     (let diff = relativedelta_between now bday in
      str_int (years diff) @ '' year'' @ plural (years diff) @ '', '' @
      str_int (months diff) @ '' month'' @ plural (months diff) @ '', '' @
      str_int (days diff) @ '' day'' @ plural (days diff))"

section \<open>The main program\<close>

text \<open>
  The module reads \<^verbatim>\<open>USER_NAME\<close> (with its default) and \<^verbatim>\<open>ACCESS_TOKEN\<close> from the
  environment, the latter with a lookup that fails when it is not set. The main block
  fetches the account, computes the age, fetches the stars, the repositories, the
  contributed repositories and the followers, and rewrites the two templates. The
  cache directory the module creates, timing and console output are not part of the model. The chained assignment of the source
  binds \<^verbatim>\<open>contrib_data\<close> to the whole tuple on its right-hand side.
\<close>

definition BIRTHDAY :: datetime where
  "BIRTHDAY = \<lparr>year = 2004, month = 4, day = 4, hour = 0, minute = 0, second = 0,
               microsecond = 0\<rparr>"

definition SVG_FILES :: "string list" where
  "SVG_FILES = [''dark_mode.svg'', ''light_mode.svg'']"

fun for_each :: "'a list \<Rightarrow> ('a \<Rightarrow> unit prog) \<Rightarrow> unit prog" where
  "for_each [] body = ret ()"
| "for_each (x # xs) body = seq (body x) (\<lambda>_. for_each xs body)"

definition initial_world ::
  "(nat \<Rightarrow> request \<Rightarrow> py_error + response) \<Rightarrow> (string \<Rightarrow> file_content option) \<Rightarrow> world" where
  "initial_world server fs = \<lparr>api = server, sent = [], QUERY_COUNT = initial_counts, files = fs\<rparr>"

definition main_block :: "globals \<Rightarrow> datetime \<Rightarrow> unit prog" where
  "main_block g now =
     seq (user_getter g (USER_NAME g)) (\<lambda>user_data.
     let age = PyStr (uptime_string now BIRTHDAY) in
     seq (graph_repos_stars g ''stars'' [''OWNER''] PyNone) (\<lambda>star_data.
     seq (graph_repos_stars g ''repos'' [''OWNER''] PyNone) (\<lambda>repo_data.
     seq (graph_repos_stars g ''repos'' [''OWNER'', ''COLLABORATOR'', ''ORGANIZATION_MEMBER'']
            PyNone) (\<lambda>c.
     let contrib_data = PyTuple [c, PyInt 0] in
     seq (follower_getter g (USER_NAME g)) (\<lambda>follower_data.
     let commit_data = PyInt 0;
         loc_total = PyList [PyStr ''0'', PyStr ''0'', PyStr ''0''] in
     for_each SVG_FILES (\<lambda>svg.
       svg_overwrite svg age commit_data star_data repo_data contrib_data
         (PyInt follower_data) loc_total))))))"

definition main ::
  "(string \<Rightarrow> string option) \<Rightarrow> datetime \<Rightarrow>
   (nat \<Rightarrow> request \<Rightarrow> py_error + response) \<Rightarrow> (string \<Rightarrow> file_content option) \<Rightarrow>
   (py_error + unit) \<times> world" where
  "main env now server fs =
     (case env ''ACCESS_TOKEN'' of
        None \<Rightarrow> (Inl (KeyError ''ACCESS_TOKEN''), initial_world server fs)
      | Some token \<Rightarrow>
          main_block
            \<lparr>USER_NAME = (case env ''USER_NAME'' of None \<Rightarrow> ''Alans44'' | Some u \<Rightarrow> u),
             HEADERS = [(''authorization'', ''token '' @ token)]\<rparr>
            now (initial_world server fs))"

section \<open>Notions used in the statements\<close>


definition el_id :: "element \<Rightarrow> string option" where
  "el_id e = map_of (el_attrib e) ''id''"

definition own :: "element \<Rightarrow> string \<times> (string \<times> string) list \<times> string option \<times> string option" where
  "own e = (el_tag e, el_attrib e, el_text e, el_tail e)"

definition replaced_el :: "pyval \<Rightarrow> element \<Rightarrow> element \<Rightarrow> element" where
  "replaced_el new_text parent e =
     (case el_get parent ''x'' of
        None \<Rightarrow> set_text (py_str new_text) e
      | Some parent_x \<Rightarrow>
          if parent_x \<noteq> [] then el_set ''x'' parent_x (set_text (py_str new_text) e)
          else set_text (py_str new_text) e)"

text \<open>
  A small template: two text lines at a fixed offset, one with the star field and its
  dots, one with the field of the contributed repositories.
\<close>

definition sample_doc :: element where
  "sample_doc =
     Element ''svg'' [] None
       [Element ''text'' [(''x'', ''390'')] None
          [Element ''tspan'' [(''id'', ''star_data'')] (Some ''0'') [] None,
           Element ''tspan'' [(''id'', ''star_data_dots'')] None [] None]
          None,
        Element ''text'' [(''x'', ''390'')] None
          [Element ''tspan'' [(''id'', ''contrib_data'')] (Some ''0'') [] None]
          None]
       None"

text \<open>
  The nine substitutions of \<^verbatim>\<open>svg_overwrite\<close> as a list of identifier, value and
  width, run in order; an identifier is apart from a list of substitutions when none of
  them writes to it, as a value or as dots.
\<close>

fun render_all :: "element \<Rightarrow> (string \<times> pyval \<times> int) list \<Rightarrow> py_error + element" where
  "render_all root [] = Inr root"
| "render_all root ((eid, v, w) # fs) = and_then (justify_format root eid v w) (\<lambda>r. render_all r fs)"

definition apart :: "string \<Rightarrow> (string \<times> pyval \<times> int) list \<Rightarrow> bool" where
  "apart j fs = list_all (\<lambda>f. j \<noteq> fst f \<and> j \<noteq> fst f @ ''_dots'') fs"

definition substitutions ::
  "pyval \<Rightarrow> pyval \<Rightarrow> pyval \<Rightarrow> pyval \<Rightarrow> pyval \<Rightarrow> pyval \<Rightarrow> pyval \<Rightarrow> pyval \<Rightarrow> pyval \<Rightarrow>
   (string \<times> pyval \<times> int) list" where
  "substitutions age comm star repo contrib follow loc2 loc0 loc1 =
     [(''age_data'', age, 0), (''commit_data'', comm, 22), (''star_data'', star, 14),
      (''repo_data'', repo, 6), (''contrib_data'', contrib, 0), (''follower_data'', follow, 10),
      (''loc_data'', loc2, 9), (''loc_add'', loc0, 0), (''loc_del'', loc1, 7)]"

text \<open>
  The request each fetch call posts, the world after a call that has counted itself and
  posted its request, and the server's answer to the next request of a world.
\<close>

definition user_request :: "globals \<Rightarrow> string \<Rightarrow> request" where
  "user_request g username =
     \<lparr>query = user_query, variables = [(''login'', PyStr username)], headers = HEADERS g\<rparr>"

definition follower_request :: "globals \<Rightarrow> string \<Rightarrow> request" where
  "follower_request g username =
     \<lparr>query = follower_query, variables = [(''login'', PyStr username)], headers = HEADERS g\<rparr>"

definition repos_request :: "globals \<Rightarrow> string list \<Rightarrow> pyval \<Rightarrow> request" where
  "repos_request g aff cursor =
     \<lparr>query = repos_query,
      variables = [(''owner_affiliation'', PyList (map PyStr aff)),
                   (''login'', PyStr (USER_NAME g)), (''cursor'', cursor)],
      headers = HEADERS g\<rparr>"

definition after_call :: "string \<Rightarrow> nat \<Rightarrow> request \<Rightarrow> world \<Rightarrow> world" where
  "after_call name k req w =
     w\<lparr>QUERY_COUNT := AList.update name (k + 1) (QUERY_COUNT w), sent := sent w @ [req]\<rparr>"

definition next_response :: "world \<Rightarrow> request \<Rightarrow> py_error + response" where
  "next_response w req = api w (length (sent w)) req"

definition globals_of :: "(string \<Rightarrow> string option) \<Rightarrow> string \<Rightarrow> globals" where
  "globals_of env token =
     \<lparr>USER_NAME = (case env ''USER_NAME'' of None \<Rightarrow> ''Alans44'' | Some u \<Rightarrow> u),
      HEADERS = [(''authorization'', ''token '' @ token)]\<rparr>"

text \<open>A server that rejects the token, and one that answers every call of a run.\<close>

definition unauthorized :: "nat \<Rightarrow> request \<Rightarrow> py_error + response" where
  "unauthorized n req =
     Inr \<lparr>status_code = 401, body_text = ''Bad credentials'', body_json = None\<rparr>"

definition ok_response :: "pyval \<Rightarrow> py_error + response" where
  "ok_response j = Inr \<lparr>status_code = 200, body_text = [], body_json = Some j\<rparr>"

definition edge :: "int \<Rightarrow> pyval" where
  "edge c = PyDict [(''node'', PyDict [(''stargazers'', PyDict [(''totalCount'', PyInt c)])])]"

definition repos_page :: "int \<Rightarrow> int list \<Rightarrow> bool \<Rightarrow> pyval" where
  "repos_page n stars has_next =
     PyDict [(''data'', PyDict [(''user'', PyDict [(''repositories'',
       PyDict [(''totalCount'', PyInt n), (''edges'', PyList (map edge stars)),
               (''pageInfo'', PyDict [(''endCursor'', PyStr ''Y3Vyc29y''),
                                      (''hasNextPage'', PyBool has_next)])])])])]"

definition sample_server :: "nat \<Rightarrow> request \<Rightarrow> py_error + response" where
  "sample_server n req =
     (if n = 0 then
        ok_response (PyDict [(''data'', PyDict [(''user'',
          PyDict [(''id'', PyStr ''U_1''), (''createdAt'', PyStr ''2020-01-01T00:00:00Z'')])])])
      else if n = 1 then ok_response (repos_page 120 [1000, 200, 34] True)
      else if n = 2 then ok_response (repos_page 120 [] True)
      else if n = 3 then ok_response (repos_page 7 [] False)
      else ok_response (PyDict [(''data'', PyDict [(''user'',
             PyDict [(''followers'', PyDict [(''totalCount'', PyInt 12)])])])]))"

definition sample_files :: "string \<Rightarrow> file_content option" where
  "sample_files name = (if name \<in> set SVG_FILES then Some (Xml sample_doc) else None)"

definition sample_env :: "string \<Rightarrow> string option" where
  "sample_env name = (if name = ''ACCESS_TOKEN'' then Some ''t0'' else None)"

definition sample_now :: datetime where
  "sample_now = \<lparr>year = 2026, month = 11, day = 3, hour = 9, minute = 30, second = 0,
                 microsecond = 0\<rparr>"

section \<open>Properties of the tree operations\<close>

lemma find_forest_Cons:
  "find_forest i (e # es) =
     (if el_id e = Some i then Some [0]
      else (case find_forest i (el_children e) of
              Some p \<Rightarrow> Some (0 # p)
            | None \<Rightarrow> (case find_forest i es of Some (k # p) \<Rightarrow> Some (Suc k # p) | _ \<Rightarrow> None)))"
  by (cases e) (simp add: el_id_def)


lemma find_forest_sound:
  "find_forest i es = Some p \<Longrightarrow>
     \<exists>k q x. p = k # q \<and> k < length es \<and> get_at (es ! k) q = Some x \<and> el_id x = Some i"
proof (induction i es arbitrary: p rule: find_forest.induct)
  case (1 i)
  then show ?case by simp
next
  case (2 i t a x cs ta es)
  show ?case
  proof (cases "map_of a ''id'' = Some i")
    case True
    with 2 show ?thesis by (auto simp: el_id_def)
  next
    case False
    note nf = this
    show ?thesis
    proof (cases "find_forest i cs")
      case (Some r)
      with nf "2.prems" have p: "p = 0 # r" by simp
      from "2.IH"(1)[OF nf Some] obtain k q y where
        "r = k # q" "k < length cs" "get_at (cs ! k) q = Some y" "el_id y = Some i" by blast
      with p show ?thesis by auto
    next
      case None
      with nf "2.prems" obtain k r where r: "find_forest i es = Some (k # r)" and p: "p = Suc k # r"
        by (auto split: option.splits list.splits)
      from "2.IH"(2)[OF nf None r] obtain y where
        "k < length es" "get_at (es ! k) r = Some y" "el_id y = Some i" by auto
      with p show ?thesis by auto
    qed
  qed
qed



lemma update_at_el_id:
  assumes "\<And>e. el_id (f e) = el_id e"
  shows "el_id (update_at f p e) = el_id e"
  using assms by (cases p) (simp_all add: el_id_def)

lemma find_forest_list_update:
  assumes "\<And>e p. e \<in> set es \<Longrightarrow> el_id (g e) = el_id e"
    and "\<And>e p. e \<in> set es \<Longrightarrow> find_forest i (el_children (g e)) = find_forest i (el_children e)"
  shows "find_forest i (es[k := g (es ! k)]) = find_forest i es"
  using assms
proof (induction es arbitrary: k)
  case Nil
  then show ?case by simp
next
  case (Cons e es)
  show ?case
  proof (cases k)
    case 0
    then show ?thesis using Cons.prems by (simp add: find_forest_Cons)
  next
    case (Suc j)
    have h: "find_forest i (es[j := g (es ! j)]) = find_forest i es"
      by (rule Cons.IH) (simp_all add: Cons.prems)
    show ?thesis unfolding Suc by (simp add: find_forest_Cons h split: option.splits)
  qed
qed

lemma find_forest_update_at:
  assumes ch: "\<And>e. el_children (f e) = el_children e"
    and idp: "\<And>e. el_id (f e) = el_id e"
  shows "find_forest i (el_children (update_at f p e)) = find_forest i (el_children e)"
proof (induction e arbitrary: p)
  case (Element t a x cs ta)
  show ?case
  proof (cases p)
    case Nil
    then show ?thesis by (simp add: ch)
  next
    case (Cons k q)
    have "find_forest i (cs[k := update_at f q (cs ! k)]) = find_forest i cs"
      by (rule find_forest_list_update) (simp_all add: update_at_el_id idp Element.IH)
    then show ?thesis using Cons by simp
  qed
qed

lemma find_by_id_update_at:
  assumes "\<And>e. el_children (f e) = el_children e" and "\<And>e. el_id (f e) = el_id e"
  shows "find_by_id (update_at f p root) i = find_by_id root i"
  unfolding find_by_id_def by (rule find_forest_update_at) (fact assms)+

lemma get_at_update_same:
  "get_at e p = Some x \<Longrightarrow> get_at (update_at f p e) p = Some (f x)"
  by (induction p arbitrary: e) (auto split: if_splits)

lemma get_at_update_other:
  assumes ch: "\<And>e. el_children (f e) = el_children e"
  shows "p \<noteq> q \<Longrightarrow> map_option own (get_at (update_at f q e) p) = map_option own (get_at e p)"
proof (induction q arbitrary: p e)
  case Nil
  then obtain k r where "p = k # r" by (cases p) auto
  then show ?case by (simp add: ch)
next
  case (Cons j q)
  show ?case
  proof (cases p)
    case Nil
    then show ?thesis by (simp add: own_def)
  next
    case (Cons k r)
    show ?thesis
    proof (cases "k = j")
      case True
      with Cons Cons.prems have "r \<noteq> q" by simp
      from Cons.IH[OF this] True Cons show ?thesis by simp
    next
      case False
      then show ?thesis using Cons by simp
    qed
  qed
qed

lemma get_at_butlast:
  "get_at e p = Some x \<Longrightarrow> p \<noteq> [] \<Longrightarrow> \<exists>y. get_at e (butlast p) = Some y"
  by (induction p arbitrary: e) (auto split: if_splits)

lemma find_by_id_sound:
  assumes "find_by_id root i = Some p"
  shows "p \<noteq> [] \<and> (\<exists>x. get_at root p = Some x \<and> el_id x = Some i)"
  using find_forest_sound[OF assms[unfolded find_by_id_def]] by auto


lemma set_text_children [simp]: "el_children (set_text s e) = el_children e"
  by (simp add: set_text_def)

lemma set_text_el_id [simp]: "el_id (set_text s e) = el_id e"
  by (simp add: set_text_def el_id_def)

lemma el_set_x_children [simp]: "el_children (el_set k v e) = el_children e"
  by (simp add: el_set_def)

lemma el_set_x_el_id [simp]: "el_id (el_set ''x'' v e) = el_id e"
  by (simp add: el_set_def el_id_def update_conv')

lemma replaced_el_children [simp]: "el_children (replaced_el v par e) = el_children e"
  by (simp add: replaced_el_def split: option.splits)

lemma replaced_el_el_id [simp]: "el_id (replaced_el v par e) = el_id e"
  by (simp add: replaced_el_def split: option.splits)

lemma update_at_twice:
  "update_at g p (update_at f p e) = update_at (\<lambda>x. g (f x)) p e"
proof (induction p arbitrary: e)
  case Nil
  show ?case by simp
next
  case (Cons k p)
  show ?case by (simp add: Cons.IH)
qed

lemma own_el_get: "own a = own b \<Longrightarrow> el_get a k = el_get b k"
  by (simp add: own_def el_get_def)

lemma getparent_update_at:
  assumes "\<And>e. el_children (f e) = el_children e"
  shows "map_option own (getparent (update_at f p root) p) = map_option own (getparent root p)"
proof (cases "p = []")
  case True
  then show ?thesis by (simp add: getparent_def)
next
  case False
  then have "butlast p \<noteq> p" by (metis append_butlast_last_id self_append_conv snoc_eq_iff_butlast)
  from get_at_update_other[of f "butlast p" p root, OF assms this] False
  show ?thesis by (simp add: getparent_def)
qed

lemma find_and_replace_eq:
  "find_and_replace root i v =
     (case find_by_id root i of
        None \<Rightarrow> Inr root
      | Some p \<Rightarrow>
          (case getparent root p of
             None \<Rightarrow> Inl AttributeError
           | Some par \<Rightarrow> Inr (update_at (replaced_el v par) p root)))"
proof (cases "find_by_id root i")
  case None
  then show ?thesis by (simp add: find_and_replace_def)
next
  case (Some p)
  let ?r1 = "update_at (set_text (py_str v)) p root"
  have eq: "map_option own (getparent ?r1 p) = map_option own (getparent root p)"
    by (rule getparent_update_at) simp
  show ?thesis
  proof (cases "getparent root p")
    case None
    with eq have "getparent ?r1 p = None" by simp
    with Some None show ?thesis by (simp add: find_and_replace_def)
  next
    case (Some par)
    with eq obtain par1 where p1: "getparent ?r1 p = Some par1" and o: "own par1 = own par"
      by auto
    have x: "el_get par1 ''x'' = el_get par ''x''" by (rule own_el_get[OF o])
    show ?thesis using \<open>find_by_id root i = Some p\<close> Some p1 x
      by (cases "el_get par ''x''")
         (simp_all add: find_and_replace_def Let_def replaced_el_def[abs_def] update_at_twice)
  qed
qed

lemma find_by_id_parent:
  assumes "find_by_id root i = Some p"
  shows "\<exists>par. getparent root p = Some par"
proof -
  from find_by_id_sound[OF assms] obtain x where "p \<noteq> []" "get_at root p = Some x" by auto
  then show ?thesis using get_at_butlast[of root p x] by (simp add: getparent_def)
qed

lemma find_and_replace_found:
  assumes "find_by_id root i = Some p"
  shows "\<exists>par x. getparent root p = Some par \<and> get_at root p = Some x \<and> el_id x = Some i \<and>
           find_and_replace root i v = Inr (update_at (replaced_el v par) p root)"
proof -
  from find_by_id_parent[OF assms] obtain par where "getparent root p = Some par" by auto
  moreover from find_by_id_sound[OF assms] obtain x where "get_at root p = Some x" "el_id x = Some i" by auto
  ultimately show ?thesis using assms by (simp add: find_and_replace_eq)
qed

lemma find_and_replace_total: "\<exists>root1. find_and_replace root i v = Inr root1"
proof (cases "find_by_id root i")
  case None
  then show ?thesis by (simp add: find_and_replace_eq)
next
  case (Some p)
  from find_and_replace_found[OF Some, of v] show ?thesis by auto
qed

lemma find_and_replace_find:
  assumes "find_and_replace root i v = Inr root1"
  shows "find_by_id root1 j = find_by_id root j"
proof (cases "find_by_id root i")
  case None
  with assms show ?thesis by (simp add: find_and_replace_eq)
next
  case (Some p)
  from find_and_replace_found[OF Some, of v] assms obtain par where
    "root1 = update_at (replaced_el v par) p root" by auto
  then show ?thesis by (simp add: find_by_id_update_at)
qed


lemma replaced_el_text [simp]: "el_text (replaced_el v par e) = Some (py_str v)"
  by (simp add: replaced_el_def set_text_def el_set_def split: option.splits)

lemma find_and_replace_text:
  assumes "find_by_id root i = Some p" and "find_and_replace root i v = Inr root1"
  shows "\<exists>x1. get_at root1 p = Some x1 \<and> el_text x1 = Some (py_str v) \<and> el_id x1 = Some i"
proof -
  from find_and_replace_found[OF assms(1), of v] assms(2) obtain par x where
    x: "get_at root p = Some x" "el_id x = Some i" and r: "root1 = update_at (replaced_el v par) p root"
    by auto
  from get_at_update_same[OF x(1), of "replaced_el v par"] r x(2) show ?thesis by simp
qed

lemma find_and_replace_other:
  assumes "find_and_replace root i v = Inr root1" and "find_by_id root i \<noteq> Some q"
  shows "map_option own (get_at root1 q) = map_option own (get_at root q)"
proof (cases "find_by_id root i")
  case None
  with assms show ?thesis by (simp add: find_and_replace_eq)
next
  case (Some p)
  from find_and_replace_found[OF Some, of v] assms(1) obtain par where
    r: "root1 = update_at (replaced_el v par) p root" by auto
  from Some assms(2) have "q \<noteq> p" by auto
  then show ?thesis unfolding r by (rule get_at_update_other[rotated]) simp
qed

lemma find_by_id_distinct:
  assumes "find_by_id root i = Some p" and "find_by_id root j = Some q" and "i \<noteq> j"
  shows "p \<noteq> q"
  using find_by_id_sound[OF assms(1)] find_by_id_sound[OF assms(2)] assms(3) by auto

lemma justify_format_eq:
  "justify_format root eid v w =
     (case find_and_replace root eid (PyStr (py_str (format_value v))) of
        Inl err \<Rightarrow> Inl err
      | Inr root1 \<Rightarrow>
          find_and_replace root1 (eid @ ''_dots'')
            (PyStr (dot_map_get (max 0 (w - int (length (py_str (format_value v))))))))"
proof -
  have "py_str (PyStr (py_str u)) = py_str u" for u
    by (simp add: py_str_def)
  then have "replaced_el (PyStr (py_str u)) = replaced_el u" for u
    by (intro ext) (simp add: replaced_el_def split: option.splits)
  then have a: "find_and_replace root eid v = find_and_replace root eid (PyStr (py_str v))" for v
    by (simp add: find_and_replace_eq split: option.splits)
  show ?thesis
    by (simp add: justify_format_def Let_def a[of "format_value v"] split: sum.splits)
qed

lemma justify_format_total: "\<exists>root2. justify_format root eid v w = Inr root2"
proof -
  obtain root1 where r1: "find_and_replace root eid (PyStr (py_str (format_value v))) = Inr root1"
    using find_and_replace_total by blast
  then show ?thesis using find_and_replace_total[of root1] by (simp add: justify_format_eq)
qed

lemma justify_format_steps:
  assumes "justify_format root eid v w = Inr root2"
  obtains root1 where "find_and_replace root eid (PyStr (py_str (format_value v))) = Inr root1"
    and "find_and_replace root1 (eid @ ''_dots'')
            (PyStr (dot_map_get (max 0 (w - int (length (py_str (format_value v))))))) = Inr root2"
  using assms by (auto simp: justify_format_eq split: sum.splits)

lemma justify_format_find:
  assumes "justify_format root eid v w = Inr root2"
  shows "find_by_id root2 j = find_by_id root j"
proof -
  from assms obtain root1 where
    a: "find_and_replace root eid (PyStr (py_str (format_value v))) = Inr root1" and
    b: "find_and_replace root1 (eid @ ''_dots'')
            (PyStr (dot_map_get (max 0 (w - int (length (py_str (format_value v))))))) = Inr root2"
    by (rule justify_format_steps)
  show ?thesis using find_and_replace_find[OF a] find_and_replace_find[OF b] by simp
qed

lemma justify_format_other:
  assumes "justify_format root eid v w = Inr root2"
    and "find_by_id root eid \<noteq> Some r" and "find_by_id root (eid @ ''_dots'') \<noteq> Some r"
  shows "map_option own (get_at root2 r) = map_option own (get_at root r)"
proof -
  from assms(1) obtain root1 where
    a: "find_and_replace root eid (PyStr (py_str (format_value v))) = Inr root1" and
    b: "find_and_replace root1 (eid @ ''_dots'')
            (PyStr (dot_map_get (max 0 (w - int (length (py_str (format_value v))))))) = Inr root2"
    by (rule justify_format_steps)
  have "find_by_id root1 (eid @ ''_dots'') \<noteq> Some r"
    using find_and_replace_find[OF a] assms(3) by simp
  from find_and_replace_other[OF b this] find_and_replace_other[OF a assms(2)]
  show ?thesis by simp
qed

lemma justify_format_value:
  assumes "find_by_id root eid = Some p" and "justify_format root eid v w = Inr root2"
  shows "\<exists>x. get_at root2 p = Some x \<and> el_text x = Some (py_str (format_value v)) \<and> el_id x = Some eid"
proof -
  from assms(2) obtain root1 where
    a: "find_and_replace root eid (PyStr (py_str (format_value v))) = Inr root1" and
    b: "find_and_replace root1 (eid @ ''_dots'')
            (PyStr (dot_map_get (max 0 (w - int (length (py_str (format_value v))))))) = Inr root2"
    by (rule justify_format_steps)
  from find_and_replace_text[OF assms(1) a] obtain x1 where
    x1: "get_at root1 p = Some x1" "el_text x1 = Some (py_str (format_value v))" "el_id x1 = Some eid"
    by (auto simp: py_str_def)
  have "find_by_id root1 (eid @ ''_dots'') \<noteq> Some p"
  proof
    assume "find_by_id root1 (eid @ ''_dots'') = Some p"
    from find_by_id_sound[OF this] x1 show False by auto
  qed
  from find_and_replace_other[OF b this] x1 show ?thesis
    by (cases "get_at root2 p") (auto simp: own_def el_id_def)
qed






section \<open>Properties of the number formats\<close>

lemma digit_char_is_digit: "d < 10 \<Longrightarrow> digit_char d \<in> set ''0123456789''"
proof -
  assume "d < 10"
  then have "d \<in> {0,1,2,3,4,5,6,7,8,9}" by auto
  then show ?thesis by (auto simp: digit_char_def)
qed

lemma digits10_digits: "set (digits10 n) \<subseteq> set ''0123456789''"
proof (induction n rule: digits10.induct)
  case (1 n)
  show ?case
  proof (cases "n < 10")
    case True
    then show ?thesis using digit_char_is_digit[of n] by (subst digits10.simps) simp
  next
    case False
    have "n mod 10 < 10" by simp
    from digit_char_is_digit[OF this] 1[OF False] False show ?thesis
      by (subst digits10.simps) simp
  qed
qed










lemma format_value_int: "isinstance_int v = Some n \<Longrightarrow> py_str (format_value v) = format_comma n"
  by (simp add: format_value_def py_str_def)

lemma format_value_other: "isinstance_int v = None \<Longrightarrow> format_value v = v"
  by (simp add: format_value_def)

text \<open>Rules that evaluate the formats on numerals.\<close>

lemma digits10_small: "n < 10 \<Longrightarrow> digits10 n = [digit_char n]"
  by (subst digits10.simps) simp

lemma digits10_big: "\<not> n < 10 \<Longrightarrow> digits10 n = digits10 (n div 10) @ [digit_char (n mod 10)]"
  by (subst digits10.simps) simp

lemma group3_small: "length ds \<le> 3 \<Longrightarrow> group3 ds = ds"
  by (subst group3.simps) simp

lemma group3_big:
  "\<not> length ds \<le> 3 \<Longrightarrow>
     group3 ds = group3 (take (length ds - 3) ds) @ CHR '','' # drop (length ds - 3) ds"
  by (subst group3.simps) simp


lemmas eval_format =
  digits10_small digits10_big group3_small group3_big digit_char_def str_int_def
  format_comma_def

section \<open>Properties of the nine substitutions\<close>

lemma and_then_Inr [simp]: "and_then (Inr x) f = f x"
  by (simp add: and_then_def)

lemma and_then_Inl [simp]: "and_then (Inl e) f = Inl e"
  by (simp add: and_then_def)

lemma and_then_return [simp]: "and_then m Inr = m"
  by (cases m) simp_all

lemma and_then_eq_Inr: "and_then m f = Inr y \<longleftrightarrow> (\<exists>x. m = Inr x \<and> f x = Inr y)"
  by (cases m) simp_all

lemma justify_format_keeps:
  assumes "justify_format root eid v w = Inr root2" and "find_by_id root j = Some r"
    and "j \<noteq> eid" and "j \<noteq> eid @ ''_dots''"
  shows "map_option own (get_at root2 r) = map_option own (get_at root r)"
proof (rule justify_format_other[OF assms(1)])
  show "find_by_id root eid \<noteq> Some r"
    using find_by_id_distinct[OF assms(2) _ assms(3)] by blast
  show "find_by_id root (eid @ ''_dots'') \<noteq> Some r"
    using find_by_id_distinct[OF assms(2) _ assms(4)] by blast
qed

lemma render_all_total: "\<exists>r. render_all root fs = Inr r"
proof (induction fs arbitrary: root)
  case Nil
  show ?case by simp
next
  case (Cons f fs)
  obtain eid v w where f: "f = (eid, v, w)" by (cases f)
  obtain r1 where "justify_format root eid v w = Inr r1" using justify_format_total by blast
  with Cons.IH[of r1] f show ?case by simp
qed

lemma render_all_find: "render_all root fs = Inr r \<Longrightarrow> find_by_id r j = find_by_id root j"
proof (induction fs arbitrary: root)
  case Nil
  then show ?case by simp
next
  case (Cons f fs)
  obtain eid v w where f: "f = (eid, v, w)" by (cases f)
  with Cons.prems obtain r1 where
    a: "justify_format root eid v w = Inr r1" and b: "render_all r1 fs = Inr r"
    by (auto simp: and_then_eq_Inr)
  from Cons.IH[OF b] justify_format_find[OF a] show ?case by simp
qed

lemma render_all_keeps:
  "render_all root fs = Inr r \<Longrightarrow> find_by_id root j = Some p \<Longrightarrow> apart j fs \<Longrightarrow>
     map_option own (get_at r p) = map_option own (get_at root p)"
proof (induction fs arbitrary: root)
  case Nil
  then show ?case by simp
next
  case (Cons f fs)
  obtain eid v w where f: "f = (eid, v, w)" by (cases f)
  with Cons.prems obtain r1 where
    a: "justify_format root eid v w = Inr r1" and b: "render_all r1 fs = Inr r"
    by (auto simp: and_then_eq_Inr)
  from Cons.prems(3) f have ne: "j \<noteq> eid" "j \<noteq> eid @ ''_dots''" and ap: "apart j fs"
    by (simp_all add: apart_def)
  have "find_by_id r1 j = Some p" using justify_format_find[OF a] Cons.prems(2) by simp
  from Cons.IH[OF b this ap] justify_format_keeps[OF a Cons.prems(2) ne] show ?case by simp
qed

lemma own_same_text:
  "map_option own a = map_option own (Some x) \<Longrightarrow> \<exists>y. a = Some y \<and> el_text y = el_text x"
  by (cases a) (auto simp: own_def)

lemma render_all_value:
  assumes "render_all root (pre @ (eid, v, w) # post) = Inr r"
    and "find_by_id root eid = Some p" and "apart eid post"
  shows "\<exists>x. get_at r p = Some x \<and> el_text x = Some (py_str (format_value v))"
proof -
  from assms(1) show ?thesis using assms(2)
  proof (induction pre arbitrary: root)
    case Nil
    then obtain r1 where
      a: "justify_format root eid v w = Inr r1" and b: "render_all r1 post = Inr r"
      by (auto simp: and_then_eq_Inr)
    from justify_format_value[OF Nil.prems(2) a] obtain x where
      x: "get_at r1 p = Some x" "el_text x = Some (py_str (format_value v))" by blast
    have "find_by_id r1 eid = Some p" using justify_format_find[OF a] Nil.prems(2) by simp
    from render_all_keeps[OF b this assms(3)] x own_same_text[of "get_at r p" x]
    show ?case by auto
  next
    case (Cons f pre)
    obtain eid1 v1 w1 where f: "f = (eid1, v1, w1)" by (cases f)
    with Cons.prems obtain r1 where
      a: "justify_format root eid1 v1 w1 = Inr r1"
      and b: "render_all r1 (pre @ (eid, v, w) # post) = Inr r"
      by (auto simp: and_then_eq_Inr)
    have "find_by_id r1 eid = Some p" using justify_format_find[OF a] Cons.prems(2) by simp
    from Cons.IH[OF b this] show ?case .
  qed
qed


lemma svg_render_fields:
  assumes "py_index loc 2 = Inr loc2" and "py_index loc 0 = Inr loc0" and "py_index loc 1 = Inr loc1"
  shows "svg_render root age comm star repo contrib follow loc =
           render_all root (substitutions age comm star repo contrib follow loc2 loc0 loc1)"
  using assms by (simp add: svg_render_def substitutions_def)

lemma svg_render_loc:
  assumes "svg_render root age comm star repo contrib follow loc = Inr r"
  shows "\<exists>loc2 loc0 loc1. py_index loc 2 = Inr loc2 \<and> py_index loc 0 = Inr loc0 \<and>
           py_index loc 1 = Inr loc1"
  using assms by (auto simp: svg_render_def and_then_eq_Inr)

section \<open>Properties of the fetch calls\<close>

lemma seq_Inr:
  "seq m f w = (Inr y, w') \<longleftrightarrow> (\<exists>x w1. m w = (Inr x, w1) \<and> f x w1 = (Inr y, w'))"
  by (cases "m w") (auto simp: seq_def split: sum.splits)

lemma lift_Inr: "lift m w = (Inr y, w') \<longleftrightarrow> m = Inr y \<and> w' = w"
  by (auto simp: lift_def)

lemma query_count_present:
  "map_of (QUERY_COUNT w) k = Some n \<Longrightarrow>
     query_count k w = (Inr (), w\<lparr>QUERY_COUNT := AList.update k (n + 1) (QUERY_COUNT w)\<rparr>)"
  by (simp add: query_count_def)

lemma query_count_Inr:
  "query_count k w = (Inr u, w') \<Longrightarrow>
     \<exists>n. map_of (QUERY_COUNT w) k = Some n \<and>
         w' = w\<lparr>QUERY_COUNT := AList.update k (n + 1) (QUERY_COUNT w)\<rparr>"
  by (auto simp: query_count_def split: option.splits)

lemma simple_request_failure:
  assumes "api w (length (sent w)) \<lparr>query = q, variables = v, headers = HEADERS g\<rparr> = Inr r"
    and "status_code r \<noteq> 200"
  shows "simple_request g fname q v w =
           (Inl (RuntimeError (fname @ '' failed '' @ arrow @ '' '' @ str_int (status_code r)
                                @ '': '' @ body_text r)),
            w\<lparr>sent := sent w @ [\<lparr>query = q, variables = v, headers = HEADERS g\<rparr>]\<rparr>)"
  using assms by (simp add: simple_request_def Let_def failure_message_def)

lemma simple_request_Inr:
  assumes "simple_request g fname q v w = (Inr r, w')"
  shows "api w (length (sent w)) \<lparr>query = q, variables = v, headers = HEADERS g\<rparr> = Inr r \<and>
         status_code r = 200 \<and>
         w' = w\<lparr>sent := sent w @ [\<lparr>query = q, variables = v, headers = HEADERS g\<rparr>]\<rparr>"
  using assms by (auto simp: simple_request_def Let_def split: sum.splits if_splits)

lemma fetch_Inr:
  fixes h :: "response \<Rightarrow> py_error + 'a"
  assumes "seq (query_count name) (\<lambda>_. seq (simple_request g name q v) (\<lambda>r. lift (h r))) w
             = (Inr y, w')"
  shows "\<exists>k r. map_of (QUERY_COUNT w) name = Some k \<and>
           next_response w \<lparr>query = q, variables = v, headers = HEADERS g\<rparr> = Inr r \<and>
           status_code r = 200 \<and> h r = Inr y \<and>
           w' = after_call name k \<lparr>query = q, variables = v, headers = HEADERS g\<rparr> w"
proof -
  from assms obtain u w1 r w2 where
    a: "query_count name w = (Inr u, w1)" and
    b: "simple_request g name q v w1 = (Inr r, w2)" and
    c: "lift (h r) w2 = (Inr y, w')"
    by (auto simp: seq_Inr)
  from query_count_Inr[OF a] obtain k where
    k: "map_of (QUERY_COUNT w) name = Some k"
       "w1 = w\<lparr>QUERY_COUNT := AList.update name (k + 1) (QUERY_COUNT w)\<rparr>" by blast
  from simple_request_Inr[OF b] k c show ?thesis
    by (auto simp: lift_Inr next_response_def after_call_def)
qed

lemma graph_repos_stars_Inr:
  assumes "graph_repos_stars g kind aff cursor w = (Inr v, w')"
  shows "\<exists>k r j page.
           map_of (QUERY_COUNT w) ''graph_repos_stars'' = Some k \<and>
           next_response w (repos_request g aff cursor) = Inr r \<and> status_code r = 200 \<and>
           body_json r = Some j \<and>
           key_path j [''data'', ''user'', ''repositories''] = Inr page \<and>
           (if kind = ''repos'' then py_getitem page ''totalCount'' = Inr v
            else \<exists>edges es total.
                   py_getitem page ''edges'' = Inr edges \<and> py_iter edges = Inr es \<and>
                   sum_stars 0 es = Inr total \<and> v = PyInt total) \<and>
           w' = after_call ''graph_repos_stars'' k (repos_request g aff cursor) w"
proof -
  from fetch_Inr[OF assms[unfolded graph_repos_stars_def]] obtain k r where
    k: "map_of (QUERY_COUNT w) ''graph_repos_stars'' = Some k" and
    r: "next_response w (repos_request g aff cursor) = Inr r" "status_code r = 200" and
    h: "and_then (json r) (\<lambda>j.
           and_then (key_path j [''data'', ''user'', ''repositories'']) (\<lambda>r.
           if kind = ''repos'' then py_getitem r ''totalCount''
           else and_then (py_getitem r ''edges'') (\<lambda>edges.
                and_then (py_iter edges) (\<lambda>es.
                and_then (sum_stars 0 es) (\<lambda>total. Inr (PyInt total)))))) = Inr v" and
    w': "w' = after_call ''graph_repos_stars'' k (repos_request g aff cursor) w"
    unfolding repos_request_def by blast
  from h obtain j page where
    j: "body_json r = Some j" and
    page: "key_path j [''data'', ''user'', ''repositories''] = Inr page" and
    rest: "(if kind = ''repos'' then py_getitem page ''totalCount''
           else and_then (py_getitem page ''edges'') (\<lambda>edges.
                and_then (py_iter edges) (\<lambda>es.
                and_then (sum_stars 0 es) (\<lambda>total. Inr (PyInt total))))) = Inr v"
    by (auto simp: and_then_eq_Inr json_def split: option.splits)
  have "if kind = ''repos'' then py_getitem page ''totalCount'' = Inr v
            else \<exists>edges es total.
                   py_getitem page ''edges'' = Inr edges \<and> py_iter edges = Inr es \<and>
                   sum_stars 0 es = Inr total \<and> v = PyInt total"
    using rest by (auto simp: and_then_eq_Inr split: if_splits)
  with k r j page w' show ?thesis by blast
qed

lemma user_getter_Inr:
  assumes "user_getter g username w = (Inr v, w')"
  shows "\<exists>k. map_of (QUERY_COUNT w) ''user_getter'' = Some k \<and>
           w' = after_call ''user_getter'' k (user_request g username) w"
  using fetch_Inr[OF assms[unfolded user_getter_def]] unfolding user_request_def by blast

lemma follower_getter_Inr:
  assumes "follower_getter g username w = (Inr v, w')"
  shows "\<exists>k. map_of (QUERY_COUNT w) ''follower_getter'' = Some k \<and>
           w' = after_call ''follower_getter'' k (follower_request g username) w"
  using fetch_Inr[OF assms[unfolded follower_getter_def]] unfolding follower_request_def by blast

lemma after_call_simps [simp]:
  "sent (after_call name k req w) = sent w @ [req]"
  "api (after_call name k req w) = api w"
  "files (after_call name k req w) = files w"
  by (simp_all add: after_call_def)

lemma fetch_failure:
  fixes h :: "response \<Rightarrow> py_error + 'a"
  assumes "map_of (QUERY_COUNT w) name = Some k"
    and "next_response w \<lparr>query = q, variables = v, headers = HEADERS g\<rparr> = Inr r"
    and "status_code r \<noteq> 200"
  shows "seq (query_count name) (\<lambda>_. seq (simple_request g name q v) (\<lambda>r. lift (h r))) w =
           (Inl (RuntimeError (name @ '' failed '' @ arrow @ '' '' @ str_int (status_code r)
                                @ '': '' @ body_text r)),
            after_call name k \<lparr>query = q, variables = v, headers = HEADERS g\<rparr> w)"
proof -
  let ?w1 = "w\<lparr>QUERY_COUNT := AList.update name (k + 1) (QUERY_COUNT w)\<rparr>"
  have "api ?w1 (length (sent ?w1)) \<lparr>query = q, variables = v, headers = HEADERS g\<rparr> = Inr r"
    using assms(2) by (simp add: next_response_def)
  from simple_request_failure[OF this assms(3), of name] query_count_present[OF assms(1)]
  show ?thesis by (simp add: seq_def after_call_def)
qed

section \<open>Properties of the main program\<close>

lemma svg_overwrite_Inr:
  assumes "svg_overwrite fname age comm star repo contrib follow loc w = (Inr u, w')"
  shows "\<exists>root r. files w fname = Some (Xml root) \<and>
           svg_render root age comm star repo contrib follow loc = Inr r \<and>
           w' = w\<lparr>files := (files w)(fname \<mapsto> Xml r)\<rparr>"
  using assms
  by (auto simp: svg_overwrite_def split: option.splits file_content.splits sum.splits)

lemma ret_Inr: "ret x w = (Inr y, w') \<longleftrightarrow> y = x \<and> w' = w"
  by (auto simp: ret_def)

lemma main_Inr:
  assumes "main env now server fs = (Inr (), w')"
  shows "\<exists>token. env ''ACCESS_TOKEN'' = Some token \<and>
           main_block (globals_of env token) now (initial_world server fs) = (Inr (), w')"
  using assms by (auto simp: main_def globals_of_def split: option.splits)

lemma main_block_Inr:
  assumes "main_block g now w0 = (Inr (), w')"
  shows "\<exists>ud w1 star w2 repo w3 c w4 fol w5 w6.
           user_getter g (USER_NAME g) w0 = (Inr ud, w1) \<and>
           graph_repos_stars g ''stars'' [''OWNER''] PyNone w1 = (Inr star, w2) \<and>
           graph_repos_stars g ''repos'' [''OWNER''] PyNone w2 = (Inr repo, w3) \<and>
           graph_repos_stars g ''repos'' [''OWNER'', ''COLLABORATOR'', ''ORGANIZATION_MEMBER'']
             PyNone w3 = (Inr c, w4) \<and>
           follower_getter g (USER_NAME g) w4 = (Inr fol, w5) \<and>
           svg_overwrite ''dark_mode.svg'' (PyStr (uptime_string now BIRTHDAY)) (PyInt 0) star repo
             (PyTuple [c, PyInt 0]) (PyInt fol) (PyList [PyStr ''0'', PyStr ''0'', PyStr ''0'']) w5
             = (Inr (), w6) \<and>
           svg_overwrite ''light_mode.svg'' (PyStr (uptime_string now BIRTHDAY)) (PyInt 0) star repo
             (PyTuple [c, PyInt 0]) (PyInt fol) (PyList [PyStr ''0'', PyStr ''0'', PyStr ''0'']) w6
             = (Inr (), w')"
proof -
  from assms have "\<exists>ud w1. user_getter g (USER_NAME g) w0 = (Inr ud, w1) \<and>
      (\<exists>star w2. graph_repos_stars g ''stars'' [''OWNER''] PyNone w1 = (Inr star, w2) \<and>
      (\<exists>repo w3. graph_repos_stars g ''repos'' [''OWNER''] PyNone w2 = (Inr repo, w3) \<and>
      (\<exists>c w4. graph_repos_stars g ''repos'' [''OWNER'', ''COLLABORATOR'', ''ORGANIZATION_MEMBER'']
             PyNone w3 = (Inr c, w4) \<and>
      (\<exists>fol w5. follower_getter g (USER_NAME g) w4 = (Inr fol, w5) \<and>
      (\<exists>w6. svg_overwrite ''dark_mode.svg'' (PyStr (uptime_string now BIRTHDAY)) (PyInt 0) star repo
             (PyTuple [c, PyInt 0]) (PyInt fol) (PyList [PyStr ''0'', PyStr ''0'', PyStr ''0'']) w5
             = (Inr (), w6) \<and>
           svg_overwrite ''light_mode.svg'' (PyStr (uptime_string now BIRTHDAY)) (PyInt 0) star repo
             (PyTuple [c, PyInt 0]) (PyInt fol) (PyList [PyStr ''0'', PyStr ''0'', PyStr ''0'']) w6
             = (Inr (), w'))))))"
    unfolding main_block_def Let_def SVG_FILES_def for_each.simps
    by (simp add: seq_Inr ret_Inr)
  then show ?thesis by blast
qed


lemma initial_world_simps [simp]:
  "sent (initial_world server fs) = []"
  "api (initial_world server fs) = server"
  "files (initial_world server fs) = fs"
  "QUERY_COUNT (initial_world server fs) = initial_counts"
  by (simp_all add: initial_world_def)

lemma main_run:
  assumes "main env now server fs = (Inr (), w')"
  obtains token star repo c fol total r1 j1 page1 edges es r3 j3 page3 where
    "env ''ACCESS_TOKEN'' = Some token"
    "sent w' =
       [user_request (globals_of env token) (USER_NAME (globals_of env token)),
        repos_request (globals_of env token) [''OWNER''] PyNone,
        repos_request (globals_of env token) [''OWNER''] PyNone,
        repos_request (globals_of env token)
          [''OWNER'', ''COLLABORATOR'', ''ORGANIZATION_MEMBER''] PyNone,
        follower_request (globals_of env token) (USER_NAME (globals_of env token))]"
    "server 1 (repos_request (globals_of env token) [''OWNER''] PyNone) = Inr r1"
    "status_code r1 = 200" "body_json r1 = Some j1"
    "key_path j1 [''data'', ''user'', ''repositories''] = Inr page1"
    "py_getitem page1 ''edges'' = Inr edges" "py_iter edges = Inr es"
    "sum_stars 0 es = Inr total" "star = PyInt total"
    "server 3 (repos_request (globals_of env token)
        [''OWNER'', ''COLLABORATOR'', ''ORGANIZATION_MEMBER''] PyNone) = Inr r3"
    "status_code r3 = 200" "body_json r3 = Some j3"
    "key_path j3 [''data'', ''user'', ''repositories''] = Inr page3"
    "py_getitem page3 ''totalCount'' = Inr c"
    "\<And>fname. fname \<in> set SVG_FILES \<Longrightarrow>
       \<exists>root r. fs fname = Some (Xml root) \<and>
         svg_render root (PyStr (uptime_string now BIRTHDAY)) (PyInt 0) star repo
           (PyTuple [c, PyInt 0]) (PyInt fol) (PyList [PyStr ''0'', PyStr ''0'', PyStr ''0''])
           = Inr r \<and>
         files w' fname = Some (Xml r)"
proof -
  from main_Inr[OF assms] obtain token where
    tok: "env ''ACCESS_TOKEN'' = Some token" and
    mb: "main_block (globals_of env token) now (initial_world server fs) = (Inr (), w')"
    by blast
  let ?g = "globals_of env token"
  let ?w0 = "initial_world server fs"
  let ?age = "PyStr (uptime_string now BIRTHDAY)"
  let ?loc = "PyList [PyStr ''0'', PyStr ''0'', PyStr ''0'']"
  from main_block_Inr[OF mb] obtain ud w1 star w2 repo w3 c w4 fol w5 w6 where
    s1: "user_getter ?g (USER_NAME ?g) ?w0 = (Inr ud, w1)" and
    s2: "graph_repos_stars ?g ''stars'' [''OWNER''] PyNone w1 = (Inr star, w2)" and
    s3: "graph_repos_stars ?g ''repos'' [''OWNER''] PyNone w2 = (Inr repo, w3)" and
    s4: "graph_repos_stars ?g ''repos'' [''OWNER'', ''COLLABORATOR'', ''ORGANIZATION_MEMBER'']
           PyNone w3 = (Inr c, w4)" and
    s5: "follower_getter ?g (USER_NAME ?g) w4 = (Inr fol, w5)" and
    s6: "svg_overwrite ''dark_mode.svg'' ?age (PyInt 0) star repo (PyTuple [c, PyInt 0])
           (PyInt fol) ?loc w5 = (Inr (), w6)" and
    s7: "svg_overwrite ''light_mode.svg'' ?age (PyInt 0) star repo (PyTuple [c, PyInt 0])
           (PyInt fol) ?loc w6 = (Inr (), w')"
    by blast
  from user_getter_Inr[OF s1] obtain k1 where
    w1: "w1 = after_call ''user_getter'' k1 (user_request ?g (USER_NAME ?g)) ?w0" by blast
  from graph_repos_stars_Inr[OF s2] obtain k2 r1 j1 page1 edges es total where
    r1: "next_response w1 (repos_request ?g [''OWNER''] PyNone) = Inr r1" "status_code r1 = 200"
        "body_json r1 = Some j1" "key_path j1 [''data'', ''user'', ''repositories''] = Inr page1"
        "py_getitem page1 ''edges'' = Inr edges" "py_iter edges = Inr es"
        "sum_stars 0 es = Inr total" "star = PyInt total" and
    w2: "w2 = after_call ''graph_repos_stars'' k2 (repos_request ?g [''OWNER''] PyNone) w1"
    by auto
  from graph_repos_stars_Inr[OF s3] obtain k3 where
    w3: "w3 = after_call ''graph_repos_stars'' k3 (repos_request ?g [''OWNER''] PyNone) w2"
    by auto
  from graph_repos_stars_Inr[OF s4] obtain k4 r3 j3 page3 where
    r3: "next_response w3 (repos_request ?g
           [''OWNER'', ''COLLABORATOR'', ''ORGANIZATION_MEMBER''] PyNone) = Inr r3"
        "status_code r3 = 200" "body_json r3 = Some j3"
        "key_path j3 [''data'', ''user'', ''repositories''] = Inr page3"
        "py_getitem page3 ''totalCount'' = Inr c" and
    w4: "w4 = after_call ''graph_repos_stars'' k4 (repos_request ?g
           [''OWNER'', ''COLLABORATOR'', ''ORGANIZATION_MEMBER''] PyNone) w3"
    by auto
  from follower_getter_Inr[OF s5] obtain k5 where
    w5: "w5 = after_call ''follower_getter'' k5 (follower_request ?g (USER_NAME ?g)) w4"
    by blast
  from svg_overwrite_Inr[OF s6] obtain rootd rd where
    d: "files w5 ''dark_mode.svg'' = Some (Xml rootd)"
       "svg_render rootd ?age (PyInt 0) star repo (PyTuple [c, PyInt 0]) (PyInt fol) ?loc = Inr rd"
       "w6 = w5\<lparr>files := (files w5)(''dark_mode.svg'' \<mapsto> Xml rd)\<rparr>"
    by blast
  from svg_overwrite_Inr[OF s7] obtain rootl rl where
    l: "files w6 ''light_mode.svg'' = Some (Xml rootl)"
       "svg_render rootl ?age (PyInt 0) star repo (PyTuple [c, PyInt 0]) (PyInt fol) ?loc = Inr rl"
       "w' = w6\<lparr>files := (files w6)(''light_mode.svg'' \<mapsto> Xml rl)\<rparr>"
    by blast
  have f5: "files w5 = fs" by (simp add: w1 w2 w3 w4 w5)
  have sent5: "sent w5 =
       [user_request ?g (USER_NAME ?g), repos_request ?g [''OWNER''] PyNone,
        repos_request ?g [''OWNER''] PyNone,
        repos_request ?g [''OWNER'', ''COLLABORATOR'', ''ORGANIZATION_MEMBER''] PyNone,
        follower_request ?g (USER_NAME ?g)]"
    by (simp add: w1 w2 w3 w4 w5)
  have sent': "sent w' = sent w5" by (simp add: d(3) l(3))
  have n1: "server 1 (repos_request ?g [''OWNER''] PyNone) = Inr r1"
    using r1(1) by (simp add: next_response_def w1)
  have n3: "server 3 (repos_request ?g
           [''OWNER'', ''COLLABORATOR'', ''ORGANIZATION_MEMBER''] PyNone) = Inr r3"
    using r3(1) by (simp add: next_response_def w1 w2 w3 numeral_3_eq_3)
  have fl: "\<exists>root r. fs fname = Some (Xml root) \<and>
         svg_render root ?age (PyInt 0) star repo (PyTuple [c, PyInt 0]) (PyInt fol) ?loc = Inr r \<and>
         files w' fname = Some (Xml r)" if "fname \<in> set SVG_FILES" for fname
  proof -
    from that have "fname = ''dark_mode.svg'' \<or> fname = ''light_mode.svg''"
      by (simp add: SVG_FILES_def)
    then show ?thesis
    proof
      assume "fname = ''dark_mode.svg''"
      with d l(3) f5 show ?thesis by simp
    next
      assume "fname = ''light_mode.svg''"
      with d(3) l f5 show ?thesis by simp
    qed
  qed
  show ?thesis
    by (rule that[OF tok _ n1 r1(2-8) n3 r3(2-5) fl]) (simp_all add: sent' sent5)
qed

lemma svg_render_total:
  assumes "py_index loc 2 = Inr loc2" and "py_index loc 0 = Inr loc0" and "py_index loc 1 = Inr loc1"
  shows "\<exists>r. svg_render root age comm star repo contrib follow loc = Inr r"
  using svg_render_fields[OF assms] render_all_total by simp

lemma svg_render_star_text:
  assumes "svg_render root age comm star repo contrib follow loc = Inr r"
    and "find_by_id root ''star_data'' = Some p"
  shows "\<exists>x. get_at r p = Some x \<and> el_text x = Some (py_str (format_value star))"
proof -
  from svg_render_loc[OF assms(1)] obtain loc2 loc0 loc1 where
    loc: "py_index loc 2 = Inr loc2" "py_index loc 0 = Inr loc0" "py_index loc 1 = Inr loc1"
    by blast
  have parts: "substitutions age comm star repo contrib follow loc2 loc0 loc1 =
                 [(''age_data'', age, 0), (''commit_data'', comm, 22)]
                 @ (''star_data'', star, 14)
                 # [(''repo_data'', repo, 6), (''contrib_data'', contrib, 0),
                    (''follower_data'', follow, 10), (''loc_data'', loc2, 9),
                    (''loc_add'', loc0, 0), (''loc_del'', loc1, 7)]"
    by (simp add: substitutions_def)
  from assms(1) have "render_all root (substitutions age comm star repo contrib follow loc2 loc0 loc1) = Inr r"
    by (simp add: svg_render_fields[OF loc])
  from render_all_value[OF this[unfolded parts] assms(2)] show ?thesis
    by (simp add: apart_def)
qed

lemma svg_render_contrib_text:
  assumes "svg_render root age comm star repo contrib follow loc = Inr r"
    and "find_by_id root ''contrib_data'' = Some p"
  shows "\<exists>x. get_at r p = Some x \<and> el_text x = Some (py_str (format_value contrib))"
proof -
  from svg_render_loc[OF assms(1)] obtain loc2 loc0 loc1 where
    loc: "py_index loc 2 = Inr loc2" "py_index loc 0 = Inr loc0" "py_index loc 1 = Inr loc1"
    by blast
  have parts: "substitutions age comm star repo contrib follow loc2 loc0 loc1 =
                 [(''age_data'', age, 0), (''commit_data'', comm, 22),
                  (''star_data'', star, 14), (''repo_data'', repo, 6)]
                 @ (''contrib_data'', contrib, 0)
                 # [(''follower_data'', follow, 10), (''loc_data'', loc2, 9),
                    (''loc_add'', loc0, 0), (''loc_del'', loc1, 7)]"
    by (simp add: substitutions_def)
  from assms(1) have "render_all root (substitutions age comm star repo contrib follow loc2 loc0 loc1) = Inr r"
    by (simp add: svg_render_fields[OF loc])
  from render_all_value[OF this[unfolded parts] assms(2)] show ?thesis
    by (simp add: apart_def)
qed

lemma sample_run:
  "\<exists>w'. main sample_env sample_now sample_server sample_files = (Inr (), w')"
proof -
  let ?age = "PyStr (uptime_string sample_now BIRTHDAY)"
  let ?loc = "PyList [PyStr ''0'', PyStr ''0'', PyStr ''0'']"
  have "\<exists>r. svg_render sample_doc ?age (PyInt 0) (PyInt 1234) (PyInt 120)
              (PyTuple [PyInt 7, PyInt 0]) (PyInt 12) ?loc = Inr r"
    by (rule svg_render_total[of _ "PyStr ''0''" "PyStr ''0''" "PyStr ''0''"])
       (simp_all add: py_index_def)
  then obtain r where r: "svg_render sample_doc ?age (PyInt 0) (PyInt 1234) (PyInt 120)
              (PyTuple [PyInt 7, PyInt 0]) (PyInt 12) ?loc = Inr r" by blast
  show ?thesis
    by (simp add: main_def main_block_def sample_env_def seq_def ret_def lift_def
          user_getter_def follower_getter_def graph_repos_stars_def query_count_def
          simple_request_def sample_server_def ok_response_def repos_page_def edge_def
          initial_world_def initial_counts_def json_def py_getitem_def py_iter_def py_add_def
          py_int_def Let_def SVG_FILES_def svg_overwrite_def sample_files_def r)
qed

lemma sum_stars_list:
  "list_all2 (\<lambda>e c. key_path e [''node'', ''stargazers'', ''totalCount''] = Inr (PyInt c)) es cs
   \<Longrightarrow> sum_stars acc es = Inr (acc + sum_list cs)"
proof (induction es cs arbitrary: acc rule: list_all2_induct)
  case Nil
  show ?case by simp
next
  case (Cons e es c cs)
  have "sum_stars (acc + c) es = Inr (acc + c + sum_list cs)" by (rule Cons.IH)
  with Cons.hyps(1) show ?case by (simp add: py_add_def add.assoc)
qed

lemma group3_chars: "set (group3 ds) \<subseteq> insert CHR '','' (set ds)"
proof (induction ds rule: group3.induct)
  case (1 ds)
  show ?case
  proof (cases "length ds \<le> 3")
    case True
    then show ?thesis by (simp add: group3_small) blast
  next
    case False
    have "set (take (length ds - 3) ds) \<subseteq> set ds" by (rule set_take_subset)
    moreover have "set (drop (length ds - 3) ds) \<subseteq> set ds" by (rule set_drop_subset)
    ultimately show ?thesis using "1.IH"[OF False] False
      by (simp add: group3_big) blast
  qed
qed

lemma format_comma_no_paren: "CHR ''('' \<notin> set (format_comma n)"
proof -
  have "CHR ''('' \<notin> set (group3 (digits10 k))" for k
    using group3_chars[of "digits10 k"] digits10_digits[of k] by auto
  then show ?thesis by (simp add: format_comma_def)
qed

lemma repr_char_nonempty: "1 \<le> length (repr_char q c)"
  by (simp add: repr_char_def Let_def)

lemma concat_repr_length: "length s \<le> length (concat (map (repr_char q) s))"
proof (induction s)
  case Nil
  show ?case by simp
next
  case (Cons c s)
  with repr_char_nonempty[of q c] show ?case by simp
qed

lemma repr_str_length: "length s + 2 \<le> length (repr_str s)"
  using concat_repr_length[of s] by (simp add: repr_str_def Let_def)

lemma py_str_pair: "py_str (PyTuple [c, PyInt 0]) = ''('' @ py_repr c @ '', 0)''"
  by (simp add: py_str_def str_int_def digits10_small digit_char_def)

lemma pair_text_differs: "py_str (PyTuple [c, PyInt 0]) \<noteq> py_str (format_value c)"
proof (cases "isinstance_int c")
  case (Some n)
  then have "py_str (format_value c) = format_comma n" by (rule format_value_int)
  moreover have "CHR ''('' \<in> set (py_str (PyTuple [c, PyInt 0]))"
    by (simp add: py_str_pair)
  ultimately show ?thesis using format_comma_no_paren[of n] by metis
next
  case None
  then have fv: "format_value c = c" by (rule format_value_other)
  have "length (py_str c) < length (py_str (PyTuple [c, PyInt 0]))"
  proof (cases c)
    case (PyStr s)
    with repr_str_length[of s] show ?thesis by (simp add: py_str_pair) (simp add: py_str_def)
  qed (simp_all add: py_str_pair, simp_all add: py_str_def)
  with fv show ?thesis by auto
qed

section \<open>Properties of the age computation\<close>










section \<open>The renderer: the claims\<close>















section \<open>The fetch calls: the claims\<close>

text \<open>
  C4. Each of the three fetch calls counts itself and posts one request. When the
  response to that request has a status other than 200, the call ends with a
  RuntimeError whose message is the name of the call, the word \<^verbatim>\<open>failed\<close>, the
  arrow, the status code, a colon and the text of the response; it returns no value,
  and the world it leaves has that one request more and no other: nothing is retried.
\<close>

theorem fetch_failure_raises:
  assumes "status_code r \<noteq> 200"
  shows "(map_of (QUERY_COUNT w) ''user_getter'' = Some k \<and>
          next_response w (user_request g username) = Inr r
          \<longrightarrow> user_getter g username w =
               (Inl (RuntimeError (''user_getter'' @ '' failed '' @ arrow @ '' '' @
                                   str_int (status_code r) @ '': '' @ body_text r)),
                after_call ''user_getter'' k (user_request g username) w)) \<and>
         (map_of (QUERY_COUNT w) ''follower_getter'' = Some k \<and>
          next_response w (follower_request g username) = Inr r
          \<longrightarrow> follower_getter g username w =
               (Inl (RuntimeError (''follower_getter'' @ '' failed '' @ arrow @ '' '' @
                                   str_int (status_code r) @ '': '' @ body_text r)),
                after_call ''follower_getter'' k (follower_request g username) w)) \<and>
         (map_of (QUERY_COUNT w) ''graph_repos_stars'' = Some k \<and>
          next_response w (repos_request g aff cursor) = Inr r
          \<longrightarrow> graph_repos_stars g kind aff cursor w =
               (Inl (RuntimeError (''graph_repos_stars'' @ '' failed '' @ arrow @ '' '' @
                                   str_int (status_code r) @ '': '' @ body_text r)),
                after_call ''graph_repos_stars'' k (repos_request g aff cursor) w))"
proof (intro conjI impI)
  assume "map_of (QUERY_COUNT w) ''user_getter'' = Some k \<and>
          next_response w (user_request g username) = Inr r"
  then show "user_getter g username w =
               (Inl (RuntimeError (''user_getter'' @ '' failed '' @ arrow @ '' '' @
                                   str_int (status_code r) @ '': '' @ body_text r)),
                after_call ''user_getter'' k (user_request g username) w)"
    unfolding user_getter_def user_request_def
    by (intro fetch_failure assms) simp_all
next
  assume "map_of (QUERY_COUNT w) ''follower_getter'' = Some k \<and>
          next_response w (follower_request g username) = Inr r"
  then show "follower_getter g username w =
               (Inl (RuntimeError (''follower_getter'' @ '' failed '' @ arrow @ '' '' @
                                   str_int (status_code r) @ '': '' @ body_text r)),
                after_call ''follower_getter'' k (follower_request g username) w)"
    unfolding follower_getter_def follower_request_def
    by (intro fetch_failure assms) simp_all
next
  assume "map_of (QUERY_COUNT w) ''graph_repos_stars'' = Some k \<and>
          next_response w (repos_request g aff cursor) = Inr r"
  then show "graph_repos_stars g kind aff cursor w =
               (Inl (RuntimeError (''graph_repos_stars'' @ '' failed '' @ arrow @ '' '' @
                                   str_int (status_code r) @ '': '' @ body_text r)),
                after_call ''graph_repos_stars'' k (repos_request g aff cursor) w)"
    unfolding graph_repos_stars_def repos_request_def
    by (intro fetch_failure assms) simp_all
qed

theorem fetch_failure_raises_witness:
  "user_getter (globals_of sample_env ''t0'') ''Alans44'' (initial_world unauthorized sample_files) =
     (Inl (RuntimeError (''user_getter failed '' @ arrow @ '' 401: Bad credentials'')),
      after_call ''user_getter'' 0 (user_request (globals_of sample_env ''t0'') ''Alans44'')
        (initial_world unauthorized sample_files)) \<and>
   follower_getter (globals_of sample_env ''t0'') ''Alans44''
       (initial_world unauthorized sample_files) =
     (Inl (RuntimeError (''follower_getter failed '' @ arrow @ '' 401: Bad credentials'')),
      after_call ''follower_getter'' 0 (follower_request (globals_of sample_env ''t0'') ''Alans44'')
        (initial_world unauthorized sample_files)) \<and>
   graph_repos_stars (globals_of sample_env ''t0'') ''stars'' [''OWNER''] PyNone
       (initial_world unauthorized sample_files) =
     (Inl (RuntimeError (''graph_repos_stars failed '' @ arrow @ '' 401: Bad credentials'')),
      after_call ''graph_repos_stars'' 0
        (repos_request (globals_of sample_env ''t0'') [''OWNER''] PyNone)
        (initial_world unauthorized sample_files))"
proof -
  let ?r = "\<lparr>status_code = 401, body_text = ''Bad credentials'', body_json = None\<rparr>"
  let ?w = "initial_world unauthorized sample_files"
  have s: "status_code ?r \<noteq> 200" by simp
  have n: "next_response ?w req = Inr ?r" for req
    by (simp add: next_response_def initial_world_def unauthorized_def)
  have c: "map_of (QUERY_COUNT ?w) ''user_getter'' = Some 0"
          "map_of (QUERY_COUNT ?w) ''follower_getter'' = Some 0"
          "map_of (QUERY_COUNT ?w) ''graph_repos_stars'' = Some 0"
    by (simp_all add: initial_world_def initial_counts_def)
  have m: "str_int 401 = ''401''" by (simp add: eval_format)
  from fetch_failure_raises[OF s, of ?w 0 "globals_of sample_env ''t0''" "''Alans44''"
         "[''OWNER'']" PyNone "''stars''"] n c m
  show ?thesis by simp
qed

section \<open>The main program: the claims\<close>

text \<open>
  C6. A call of \<^verbatim>\<open>graph_repos_stars\<close> in the mode \<^verbatim>\<open>stars\<close> that returns has posted
  one request, with the cursor it was given, and its value is the sum that \<^verbatim>\<open>sum\<close>
  computes over the edges of the page in the response to that request: the sum of the
  per-edge \<^verbatim>\<open>totalCount\<close> values when each edge has an integer one. Nothing of
  \<^verbatim>\<open>pageInfo\<close> is read. A run of the main program that ends normally has posted exactly
  five requests, every repositories request with the cursor \<^verbatim>\<open>None\<close>; the star count
  it writes into each template that has the element \<^verbatim>\<open>star_data\<close> is the sum over the
  edges of the one page in the response to its second request, so no later page is
  fetched or added.
\<close>

theorem stars_single_page:
  "(graph_repos_stars g ''stars'' aff cursor w = (Inr v, w1) \<longrightarrow>
      (\<exists>k r j page edges es total.
         next_response w (repos_request g aff cursor) = Inr r \<and> body_json r = Some j \<and>
         key_path j [''data'', ''user'', ''repositories''] = Inr page \<and>
         py_getitem page ''edges'' = Inr edges \<and> py_iter edges = Inr es \<and>
         sum_stars 0 es = Inr total \<and> v = PyInt total \<and>
         (\<forall>cs. list_all2
                 (\<lambda>e c. key_path e [''node'', ''stargazers'', ''totalCount''] = Inr (PyInt c))
                 es cs \<longrightarrow> total = sum_list cs) \<and>
         w1 = after_call ''graph_repos_stars'' k (repos_request g aff cursor) w)) \<and>
   (main env now server fs = (Inr (), w') \<longrightarrow>
      (\<exists>token r j page edges es total.
         env ''ACCESS_TOKEN'' = Some token \<and>
         sent w' =
           [user_request (globals_of env token) (USER_NAME (globals_of env token)),
            repos_request (globals_of env token) [''OWNER''] PyNone,
            repos_request (globals_of env token) [''OWNER''] PyNone,
            repos_request (globals_of env token)
              [''OWNER'', ''COLLABORATOR'', ''ORGANIZATION_MEMBER''] PyNone,
            follower_request (globals_of env token) (USER_NAME (globals_of env token))] \<and>
         server 1 (repos_request (globals_of env token) [''OWNER''] PyNone) = Inr r \<and>
         body_json r = Some j \<and>
         key_path j [''data'', ''user'', ''repositories''] = Inr page \<and>
         py_getitem page ''edges'' = Inr edges \<and> py_iter edges = Inr es \<and>
         sum_stars 0 es = Inr total \<and>
         (\<forall>cs. list_all2
                 (\<lambda>e c. key_path e [''node'', ''stargazers'', ''totalCount''] = Inr (PyInt c))
                 es cs \<longrightarrow> total = sum_list cs) \<and>
         (\<forall>fname root p.
            fname \<in> set SVG_FILES \<and> fs fname = Some (Xml root) \<and>
            find_by_id root ''star_data'' = Some p \<longrightarrow>
            (\<exists>root1 x. files w' fname = Some (Xml root1) \<and> get_at root1 p = Some x \<and>
                       el_text x = Some (format_comma total)))))"
proof (intro conjI impI)
  assume a: "graph_repos_stars g ''stars'' aff cursor w = (Inr v, w1)"
  from graph_repos_stars_Inr[OF a] obtain k r j page edges es total where
    f: "next_response w (repos_request g aff cursor) = Inr r" "body_json r = Some j"
       "key_path j [''data'', ''user'', ''repositories''] = Inr page"
       "py_getitem page ''edges'' = Inr edges" "py_iter edges = Inr es"
       "sum_stars 0 es = Inr total" "v = PyInt total"
       "w1 = after_call ''graph_repos_stars'' k (repos_request g aff cursor) w"
    by auto
  have s: "\<forall>cs. list_all2
                 (\<lambda>e c. key_path e [''node'', ''stargazers'', ''totalCount''] = Inr (PyInt c))
                 es cs \<longrightarrow> total = sum_list cs"
    using sum_stars_list[of es _ 0] f(6) by auto
  from f s show "\<exists>k r j page edges es total.
         next_response w (repos_request g aff cursor) = Inr r \<and> body_json r = Some j \<and>
         key_path j [''data'', ''user'', ''repositories''] = Inr page \<and>
         py_getitem page ''edges'' = Inr edges \<and> py_iter edges = Inr es \<and>
         sum_stars 0 es = Inr total \<and> v = PyInt total \<and>
         (\<forall>cs. list_all2
                 (\<lambda>e c. key_path e [''node'', ''stargazers'', ''totalCount''] = Inr (PyInt c))
                 es cs \<longrightarrow> total = sum_list cs) \<and>
         w1 = after_call ''graph_repos_stars'' k (repos_request g aff cursor) w"
    by blast
next
  assume a: "main env now server fs = (Inr (), w')"
  obtain token star repo c fol total r1 j1 page1 edges es r3 j3 page3 where
    tok: "env ''ACCESS_TOKEN'' = Some token" and
    snt: "sent w' =
       [user_request (globals_of env token) (USER_NAME (globals_of env token)),
        repos_request (globals_of env token) [''OWNER''] PyNone,
        repos_request (globals_of env token) [''OWNER''] PyNone,
        repos_request (globals_of env token)
          [''OWNER'', ''COLLABORATOR'', ''ORGANIZATION_MEMBER''] PyNone,
        follower_request (globals_of env token) (USER_NAME (globals_of env token))]" and
    r1: "server 1 (repos_request (globals_of env token) [''OWNER''] PyNone) = Inr r1"
        "status_code r1 = 200" "body_json r1 = Some j1"
        "key_path j1 [''data'', ''user'', ''repositories''] = Inr page1"
        "py_getitem page1 ''edges'' = Inr edges" "py_iter edges = Inr es"
        "sum_stars 0 es = Inr total" and
    star: "star = PyInt total" and
    r3: "server 3 (repos_request (globals_of env token)
           [''OWNER'', ''COLLABORATOR'', ''ORGANIZATION_MEMBER''] PyNone) = Inr r3"
        "status_code r3 = 200" "body_json r3 = Some j3"
        "key_path j3 [''data'', ''user'', ''repositories''] = Inr page3"
        "py_getitem page3 ''totalCount'' = Inr c" and
    fl: "\<And>fname. fname \<in> set SVG_FILES \<Longrightarrow>
       \<exists>root r. fs fname = Some (Xml root) \<and>
         svg_render root (PyStr (uptime_string now BIRTHDAY)) (PyInt 0) star repo
           (PyTuple [c, PyInt 0]) (PyInt fol) (PyList [PyStr ''0'', PyStr ''0'', PyStr ''0''])
           = Inr r \<and>
         files w' fname = Some (Xml r)"
    by (rule main_run[OF a]) (rule that; (assumption | blast))
  have s: "\<forall>cs. list_all2
                 (\<lambda>e c. key_path e [''node'', ''stargazers'', ''totalCount''] = Inr (PyInt c))
                 es cs \<longrightarrow> total = sum_list cs"
    using sum_stars_list[of es _ 0] r1(7) by auto
  have shown: "py_str (format_value star) = format_comma total"
    unfolding star by (simp add: format_value_def isinstance_int_def py_str_def)
  have t: "\<forall>fname root p.
            fname \<in> set SVG_FILES \<and> fs fname = Some (Xml root) \<and>
            find_by_id root ''star_data'' = Some p \<longrightarrow>
            (\<exists>root1 x. files w' fname = Some (Xml root1) \<and> get_at root1 p = Some x \<and>
                       el_text x = Some (format_comma total))"
  proof (intro allI impI, elim conjE)
    fix fname root p
    assume h: "fname \<in> set SVG_FILES" "fs fname = Some (Xml root)"
      "find_by_id root ''star_data'' = Some p"
    from fl[OF h(1)] h(2) obtain r where
      r: "svg_render root (PyStr (uptime_string now BIRTHDAY)) (PyInt 0) star repo
           (PyTuple [c, PyInt 0]) (PyInt fol) (PyList [PyStr ''0'', PyStr ''0'', PyStr ''0''])
           = Inr r" "files w' fname = Some (Xml r)"
      by auto
    from svg_render_star_text[OF r(1) h(3)] r(2) shown
    show "\<exists>root1 x. files w' fname = Some (Xml root1) \<and> get_at root1 p = Some x \<and>
                       el_text x = Some (format_comma total)"
      by auto
  qed
  from tok snt r1(1,3-7) s t show "\<exists>token r j page edges es total.
         env ''ACCESS_TOKEN'' = Some token \<and>
         sent w' =
           [user_request (globals_of env token) (USER_NAME (globals_of env token)),
            repos_request (globals_of env token) [''OWNER''] PyNone,
            repos_request (globals_of env token) [''OWNER''] PyNone,
            repos_request (globals_of env token)
              [''OWNER'', ''COLLABORATOR'', ''ORGANIZATION_MEMBER''] PyNone,
            follower_request (globals_of env token) (USER_NAME (globals_of env token))] \<and>
         server 1 (repos_request (globals_of env token) [''OWNER''] PyNone) = Inr r \<and>
         body_json r = Some j \<and>
         key_path j [''data'', ''user'', ''repositories''] = Inr page \<and>
         py_getitem page ''edges'' = Inr edges \<and> py_iter edges = Inr es \<and>
         sum_stars 0 es = Inr total \<and>
         (\<forall>cs. list_all2
                 (\<lambda>e c. key_path e [''node'', ''stargazers'', ''totalCount''] = Inr (PyInt c))
                 es cs \<longrightarrow> total = sum_list cs) \<and>
         (\<forall>fname root p.
            fname \<in> set SVG_FILES \<and> fs fname = Some (Xml root) \<and>
            find_by_id root ''star_data'' = Some p \<longrightarrow>
            (\<exists>root1 x. files w' fname = Some (Xml root1) \<and> get_at root1 p = Some x \<and>
                       el_text x = Some (format_comma total)))"
    by blast
qed

theorem stars_single_page_witness:
  "(\<exists>k r j page edges es total.
      next_response
        (after_call ''user_getter'' 0 (user_request (globals_of sample_env ''t0'') ''Alans44'')
           (initial_world sample_server sample_files))
        (repos_request (globals_of sample_env ''t0'') [''OWNER''] PyNone) = Inr r \<and>
      body_json r = Some j \<and>
      key_path j [''data'', ''user'', ''repositories''] = Inr page \<and>
      py_getitem page ''edges'' = Inr edges \<and> py_iter edges = Inr es \<and>
      sum_stars 0 es = Inr total \<and> PyInt 1234 = PyInt total \<and>
      (\<forall>cs. list_all2
              (\<lambda>e c. key_path e [''node'', ''stargazers'', ''totalCount''] = Inr (PyInt c))
              es cs \<longrightarrow> total = sum_list cs) \<and>
      after_call ''graph_repos_stars'' 0
        (repos_request (globals_of sample_env ''t0'') [''OWNER''] PyNone)
        (after_call ''user_getter'' 0 (user_request (globals_of sample_env ''t0'') ''Alans44'')
           (initial_world sample_server sample_files)) =
      after_call ''graph_repos_stars'' k
        (repos_request (globals_of sample_env ''t0'') [''OWNER''] PyNone)
        (after_call ''user_getter'' 0 (user_request (globals_of sample_env ''t0'') ''Alans44'')
           (initial_world sample_server sample_files))) \<and>
   (\<exists>w' token r j page edges es total.
      main sample_env sample_now sample_server sample_files = (Inr (), w') \<and>
      sample_env ''ACCESS_TOKEN'' = Some token \<and>
      sent w' =
        [user_request (globals_of sample_env token) (USER_NAME (globals_of sample_env token)),
         repos_request (globals_of sample_env token) [''OWNER''] PyNone,
         repos_request (globals_of sample_env token) [''OWNER''] PyNone,
         repos_request (globals_of sample_env token)
           [''OWNER'', ''COLLABORATOR'', ''ORGANIZATION_MEMBER''] PyNone,
         follower_request (globals_of sample_env token)
           (USER_NAME (globals_of sample_env token))] \<and>
      sample_server 1 (repos_request (globals_of sample_env token) [''OWNER''] PyNone) = Inr r \<and>
      body_json r = Some j \<and>
      key_path j [''data'', ''user'', ''repositories''] = Inr page \<and>
      py_getitem page ''edges'' = Inr edges \<and> py_iter edges = Inr es \<and>
      sum_stars 0 es = Inr total \<and>
      (\<forall>cs. list_all2
              (\<lambda>e c. key_path e [''node'', ''stargazers'', ''totalCount''] = Inr (PyInt c))
              es cs \<longrightarrow> total = sum_list cs) \<and>
      (\<forall>fname root p.
         fname \<in> set SVG_FILES \<and> sample_files fname = Some (Xml root) \<and>
         find_by_id root ''star_data'' = Some p \<longrightarrow>
         (\<exists>root1 x. files w' fname = Some (Xml root1) \<and> get_at root1 p = Some x \<and>
                    el_text x = Some (format_comma total))))"
proof -
  let ?g = "globals_of sample_env ''t0''"
  let ?w = "after_call ''user_getter'' 0 (user_request ?g ''Alans44'')
              (initial_world sample_server sample_files)"
  have call: "graph_repos_stars ?g ''stars'' [''OWNER''] PyNone ?w =
                (Inr (PyInt 1234),
                 after_call ''graph_repos_stars'' 0 (repos_request ?g [''OWNER''] PyNone) ?w)"
    by (simp add: graph_repos_stars_def seq_def lift_def query_count_def simple_request_def
          after_call_def repos_request_def user_request_def globals_of_def sample_env_def
          sample_server_def ok_response_def repos_page_def edge_def initial_world_def
          initial_counts_def json_def py_getitem_def py_iter_def py_add_def Let_def)
  obtain w' where run: "main sample_env sample_now sample_server sample_files = (Inr (), w')"
    using sample_run by blast
  from stars_single_page[of ?g "[''OWNER'']" PyNone ?w "PyInt 1234"
         "after_call ''graph_repos_stars'' 0 (repos_request ?g [''OWNER''] PyNone) ?w"
         sample_env sample_now sample_server sample_files w'] call run
  show ?thesis by blast
qed

text \<open>
  C9. In a run of the main program that ends normally, the value passed to
  \<^verbatim>\<open>svg_overwrite\<close> for the contributed repositories is the tuple of the count read
  from the response to the fourth request and 0. A tuple is not an \<^verbatim>\<open>int\<close>, so the text
  written to the element \<^verbatim>\<open>contrib_data\<close> of each template that has it is the string
  form of that tuple, an opening parenthesis, the count, a comma, a space, 0 and a
  closing parenthesis, which is never the text the count alone would have given.
\<close>

theorem main_contrib_pair:
  assumes "main env now server fs = (Inr (), w')"
    and "fname \<in> set SVG_FILES" and "fs fname = Some (Xml root)"
    and "find_by_id root ''contrib_data'' = Some p"
  shows "\<exists>token r j page c root1 x.
           env ''ACCESS_TOKEN'' = Some token \<and>
           server 3 (repos_request (globals_of env token)
                       [''OWNER'', ''COLLABORATOR'', ''ORGANIZATION_MEMBER''] PyNone) = Inr r \<and>
           body_json r = Some j \<and>
           key_path j [''data'', ''user'', ''repositories''] = Inr page \<and>
           py_getitem page ''totalCount'' = Inr c \<and>
           files w' fname = Some (Xml root1) \<and> get_at root1 p = Some x \<and>
           el_text x = Some (py_str (PyTuple [c, PyInt 0])) \<and>
           py_str (PyTuple [c, PyInt 0]) = ''('' @ py_repr c @ '', 0)'' \<and>
           el_text x \<noteq> Some (py_str (format_value c))"
proof -
  obtain token star repo c fol total r1 j1 page1 edges es r3 j3 page3 where
    tok: "env ''ACCESS_TOKEN'' = Some token" and
    r3: "server 3 (repos_request (globals_of env token)
           [''OWNER'', ''COLLABORATOR'', ''ORGANIZATION_MEMBER''] PyNone) = Inr r3"
        "body_json r3 = Some j3"
        "key_path j3 [''data'', ''user'', ''repositories''] = Inr page3"
        "py_getitem page3 ''totalCount'' = Inr c" and
    fl: "\<And>fname. fname \<in> set SVG_FILES \<Longrightarrow>
       \<exists>root r. fs fname = Some (Xml root) \<and>
         svg_render root (PyStr (uptime_string now BIRTHDAY)) (PyInt 0) star repo
           (PyTuple [c, PyInt 0]) (PyInt fol) (PyList [PyStr ''0'', PyStr ''0'', PyStr ''0''])
           = Inr r \<and>
         files w' fname = Some (Xml r)"
    by (rule main_run[OF assms(1)]) (rule that; (assumption | blast))
  from fl[OF assms(2)] assms(3) obtain root1 where
    r: "svg_render root (PyStr (uptime_string now BIRTHDAY)) (PyInt 0) star repo
           (PyTuple [c, PyInt 0]) (PyInt fol) (PyList [PyStr ''0'', PyStr ''0'', PyStr ''0''])
           = Inr root1" "files w' fname = Some (Xml root1)"
    by auto
  have "format_value (PyTuple [c, PyInt 0]) = PyTuple [c, PyInt 0]"
    by (simp add: format_value_def isinstance_int_def)
  with svg_render_contrib_text[OF r(1) assms(4)] obtain x where
    x: "get_at root1 p = Some x" "el_text x = Some (py_str (PyTuple [c, PyInt 0]))"
    by auto
  have ne: "el_text x \<noteq> Some (py_str (format_value c))"
    using x(2) pair_text_differs[of c] by simp
  from tok r3 r(2) x ne py_str_pair[of c] show ?thesis by blast
qed

theorem main_contrib_pair_witness:
  "\<exists>w' token r j page c root1 x.
     main sample_env sample_now sample_server sample_files = (Inr (), w') \<and>
     sample_env ''ACCESS_TOKEN'' = Some token \<and>
     sample_server 3 (repos_request (globals_of sample_env token)
                 [''OWNER'', ''COLLABORATOR'', ''ORGANIZATION_MEMBER''] PyNone) = Inr r \<and>
     body_json r = Some j \<and>
     key_path j [''data'', ''user'', ''repositories''] = Inr page \<and>
     py_getitem page ''totalCount'' = Inr c \<and>
     files w' ''dark_mode.svg'' = Some (Xml root1) \<and> get_at root1 [1, 0] = Some x \<and>
     el_text x = Some (py_str (PyTuple [c, PyInt 0])) \<and>
     py_str (PyTuple [c, PyInt 0]) = ''('' @ py_repr c @ '', 0)'' \<and>
     el_text x \<noteq> Some (py_str (format_value c))"
proof -
  obtain w' where run: "main sample_env sample_now sample_server sample_files = (Inr (), w')"
    using sample_run by blast
  have a: "''dark_mode.svg'' \<in> set SVG_FILES" by (simp add: SVG_FILES_def)
  have b: "sample_files ''dark_mode.svg'' = Some (Xml sample_doc)"
    by (simp add: sample_files_def SVG_FILES_def)
  have c: "find_by_id sample_doc ''contrib_data'' = Some [1, 0]"
    by (simp add: sample_doc_def find_by_id_def)
  from main_contrib_pair[OF run a b c] run show ?thesis by blast
qed

section \<open>The age string: the claim\<close>



end
